theory Spec2Isabelle
  imports Complex_Main
begin

section \<open>GeoStatsr country coder: region catalog, canonical IDs, point and level lookup\<close>

text \<open>
  A shallow embedding of the country coder of GeoStatsr (the Go file that declares
  \<^verbatim>\<open>CountryCoder\<close>). Go strings are byte sequences and are modelled as \<open>string\<close>;
  \<^verbatim>\<open>float64\<close> values decoded from JSON are finite and are modelled as \<open>real\<close>; a
  \<^verbatim>\<open>*geojson.Feature\<close> that is \<^verbatim>\<open>nil\<close> is \<open>None\<close>. The catalog is never mutated
  after loading, so a feature pointer is modelled by the feature's value. Calls of
  \<^verbatim>\<open>debugLog\<close> have no effect on results and are left out.
\<close>

subsection \<open>Strings: ASCII classes and case mapping\<close>

definition isASCII :: "char \<Rightarrow> bool" where
  "isASCII c = ((of_char c :: nat) < 128)"

definition isLower :: "char \<Rightarrow> bool" where
  "isLower c = (97 \<le> (of_char c :: nat) \<and> (of_char c :: nat) \<le> 122)"

definition isUpper :: "char \<Rightarrow> bool" where
  "isUpper c = (65 \<le> (of_char c :: nat) \<and> (of_char c :: nat) \<le> 90)"

definition upperChar :: "char \<Rightarrow> char" where
  "upperChar c = (if isLower c then char_of ((of_char c :: nat) - 32) else c)"

definition lowerChar :: "char \<Rightarrow> char" where
  "lowerChar c = (if isUpper c then char_of ((of_char c :: nat) + 32) else c)"

text \<open>
  \<^verbatim>\<open>strings.ToUpper\<close> and \<^verbatim>\<open>strings.ToLower\<close> belong to the Go library, not to the
  repository. Both first scan the bytes: a string of ASCII bytes only is returned as it
  is when it has no letter of the other case, and otherwise with each such letter
  shifted by \<open>'a' - 'A' = 32\<close>. Any other string is handed to
  \<^verbatim>\<open>strings.Map(unicode.ToUpper, s)\<close> (or \<^verbatim>\<open>unicode.ToLower\<close>), which decodes UTF-8,
  maps every rune through the Unicode tables and writes U+FFFD for an invalid byte. That
  branch is the parameter \<open>u\<close> (or \<open>l\<close>): nothing is assumed of it unless a theorem
  says so.
\<close>

definition ToUpper ::
    "(string \<Rightarrow> string) \<Rightarrow> string \<Rightarrow> string" where
  "ToUpper u s =
     (if list_all isASCII s
      then (if list_ex isLower s then map upperChar s else s)
      else u s)"

definition ToLower ::
    "(string \<Rightarrow> string) \<Rightarrow> string \<Rightarrow> string" where
  "ToLower l s =
     (if list_all isASCII s
      then (if list_ex isUpper s then map lowerChar s else s)
      else l s)"

text \<open>
  Stand-ins for the two parameters in the examples, whose strings are all ASCII, so that
  the Unicode branch is never taken there: they shift the ASCII letters and keep every
  other byte.
\<close>

definition asciiOnlyUpper :: "string \<Rightarrow> string" where
  "asciiOnlyUpper s = map upperChar s"

definition asciiOnlyLower :: "string \<Rightarrow> string" where
  "asciiOnlyLower s = map lowerChar s"

subsection \<open>The ID filter regular expression\<close>

text \<open>
  \<^verbatim>\<open>idFilterRegex = \b(and|the|of|el|la|de)\b|[-_ .,'()&\[\]/]\<close>, with no flag: the
  literals match lower-case letters only. \<^verbatim>\<open>\b\<close> is Go's ASCII word boundary: exactly
  one of the two neighbouring positions holds a word character \<^verbatim>\<open>[0-9A-Za-z_]\<close>, the
  ends of the text counting as non-word.
\<close>

definition isWordChar :: "char \<Rightarrow> bool" where
  "isWordChar c = (let n = (of_char c :: nat) in
     (48 \<le> n \<and> n \<le> 57) \<or> (65 \<le> n \<and> n \<le> 90) \<or> n = 95 \<or> (97 \<le> n \<and> n \<le> 122))"

definition stopWords :: "string list" where
  "stopWords = [''and'', ''the'', ''of'', ''el'', ''la'', ''de'']"

definition filterChars :: "char list" where
  "filterChars = CHR 0x27 # ''-_ .,()&[]/''"

definition isFilterChar :: "char \<Rightarrow> bool" where
  "isFilterChar c = (c \<in> set filterChars)"

fun wordSide :: "char option \<Rightarrow> bool" where
  "wordSide None = False"
| "wordSide (Some c) = isWordChar c"

definition wordBoundary :: "char option \<Rightarrow> string \<Rightarrow> bool" where
  "wordBoundary prev rest =
     (wordSide prev \<noteq> wordSide (case rest of [] \<Rightarrow> None | c # _ \<Rightarrow> Some c))"

text \<open>
  The first alternative at the current position: \<open>prev\<close> is the byte before it,
  \<open>s\<close> the text from it on. The literals are tried in the order of the pattern.
\<close>

definition matchStopWord :: "char option \<Rightarrow> string \<Rightarrow> string option" where
  "matchStopWord prev s =
     (if wordBoundary prev s
      then find (\<lambda>w. take (length w) s = w \<and>
                      wordBoundary (Some (last w)) (drop (length w) s)) stopWords
      else None)"

text \<open>
  \<^verbatim>\<open>idFilterRegex.ReplaceAllString(id, "")\<close>: the text is scanned from the left; at
  each position the first alternative is tried before the character class, a match is
  deleted and the scan goes on behind it; a byte where nothing matches is copied. No
  alternative matches the empty string. A stop word has at least one byte, so behind the
  match of \<open>w\<close> at \<open>c # cs\<close> the rest is \<open>drop (length w - 1) cs\<close>.
\<close>

fun removeMatches :: "char option \<Rightarrow> string \<Rightarrow> string" where
  "removeMatches prev [] = []"
| "removeMatches prev (c # cs) =
     (case matchStopWord prev (c # cs) of
        Some w \<Rightarrow> removeMatches (Some (last w)) (drop (length w - 1) cs)
      | None \<Rightarrow>
          if isFilterChar c then removeMatches (Some c) cs
          else c # removeMatches (Some c) cs)"

definition canonicalID ::
    "(string \<Rightarrow> string) \<Rightarrow> string \<Rightarrow> string" where
  "canonicalID u ident =
     (if ident = [] then []
      else if hd ident = CHR ''.'' then ToUpper u ident
      else ToUpper u (removeMatches None ident))"

subsection \<open>Decoded JSON and geometry\<close>

text \<open>
  A value of type \<^verbatim>\<open>interface{}\<close> produced by \<^verbatim>\<open>json.Unmarshal\<close>: \<^verbatim>\<open>nil\<close>,
  \<^verbatim>\<open>bool\<close>, \<^verbatim>\<open>float64\<close>, \<^verbatim>\<open>string\<close>, \<^verbatim>\<open>[]interface{}\<close> or
  \<^verbatim>\<open>map[string]interface{}\<close> (as the list of its entries, keys distinct).
\<close>

datatype jval =
    JNull
  | JBool bool
  | JNum real
  | JStr string
  | JArr "jval list"
  | JObj "(string \<times> jval) list"

text \<open>\<^verbatim>\<open>orb.Point{lng, lat}\<close>, \<^verbatim>\<open>orb.Ring\<close>, \<^verbatim>\<open>orb.Polygon\<close>, \<^verbatim>\<open>orb.MultiPolygon\<close>.\<close>

type_synonym point = "real \<times> real"
type_synonym ring = "point list"
type_synonym polygon = "ring list"

datatype geometry =
    GPoint point
  | GPolygon polygon
  | GMultiPolygon "polygon list"

text \<open>
  One coordinate entry: \<^verbatim>\<open>point.([]interface{})\<close> with at least two elements, of
  which the first two are \<^verbatim>\<open>float64\<close>.
\<close>

fun pointOf :: "jval \<Rightarrow> point option" where
  "pointOf (JArr (JNum lng # JNum lat # rest)) = Some (lng, lat)"
| "pointOf j = None"

text \<open>The inner loop of \<^verbatim>\<open>coordsToPolygon\<close>; \<open>points\<close> is the slice appended to.\<close>

fun ringPoints :: "point list \<Rightarrow> jval list \<Rightarrow> point list" where
  "ringPoints points [] = points"
| "ringPoints points (p # ps) =
     (case pointOf p of
        Some pt \<Rightarrow> ringPoints (points @ [pt]) ps
      | None \<Rightarrow> ringPoints points ps)"

text \<open>The outer loop of \<^verbatim>\<open>coordsToPolygon\<close>; \<open>rings\<close> is the slice appended to.\<close>

fun polygonRings :: "ring list \<Rightarrow> jval list \<Rightarrow> ring list" where
  "polygonRings rings [] = rings"
| "polygonRings rings (JArr ringArray # rs) =
     (let points = ringPoints [] ringArray
      in if 0 < length points then polygonRings (rings @ [points]) rs
         else polygonRings rings rs)"
| "polygonRings rings (r # rs) = polygonRings rings rs"

fun coordsToPolygon :: "jval \<Rightarrow> polygon option" where
  "coordsToPolygon (JArr coordsArray) =
     (let rings = polygonRings [] coordsArray
      in if 0 < length rings then Some rings else None)"
| "coordsToPolygon coords = None"

text \<open>The loop of \<^verbatim>\<open>coordsToMultiPolygon\<close>.\<close>

fun multiPolygons :: "polygon list \<Rightarrow> jval list \<Rightarrow> polygon list" where
  "multiPolygons polygons [] = polygons"
| "multiPolygons polygons (polygonCoords # cs) =
     (case coordsToPolygon polygonCoords of
        Some polygon \<Rightarrow> multiPolygons (polygons @ [polygon]) cs
      | None \<Rightarrow> multiPolygons polygons cs)"

fun coordsToMultiPolygon :: "jval \<Rightarrow> polygon list option" where
  "coordsToMultiPolygon (JArr coordsArray) =
     (let polygons = multiPolygons [] coordsArray
      in if 0 < length polygons then Some polygons else None)"
| "coordsToMultiPolygon coords = None"

text \<open>
  What the specification says of the parser, in its own words: within a ring the entries
  whose first two components are numeric are kept, in order; a ring with no valid point
  is dropped; a polygon with no valid ring, and a multipolygon with no valid polygon, is
  no geometry.
\<close>

fun numericPair :: "jval \<Rightarrow> bool" where
  "numericPair (JArr (JNum lng # JNum lat # rest)) = True"
| "numericPair j = False"

fun pairCoords :: "jval \<Rightarrow> point" where
  "pairCoords (JArr (JNum lng # JNum lat # rest)) = (lng, lat)"
| "pairCoords j = (0, 0)"

fun specRing :: "jval \<Rightarrow> ring" where
  "specRing (JArr entries) = map pairCoords (filter numericPair entries)"
| "specRing j = []"

definition specPolygon :: "jval \<Rightarrow> polygon option" where
  "specPolygon coords =
     (case coords of
        JArr rs \<Rightarrow>
          (let rings = filter (\<lambda>r. r \<noteq> []) (map specRing rs)
           in if rings = [] then None else Some rings)
      | _ \<Rightarrow> None)"

definition specMultiPolygon :: "jval \<Rightarrow> polygon list option" where
  "specMultiPolygon coords =
     (case coords of
        JArr blocks \<Rightarrow>
          (let polygons = map the (filter (\<lambda>p. p \<noteq> None) (map specPolygon blocks))
           in if polygons = [] then None else Some polygons)
      | _ \<Rightarrow> None)"

subsection \<open>Containment\<close>

text \<open>
  Modelled from the spec: \<^verbatim>\<open>planar.PolygonContains\<close> and
  \<^verbatim>\<open>planar.MultiPolygonContains\<close> belong to the geometry library the program imports,
  whose source is not part of the repository. The first ring is the outer boundary, the
  other rings are holes and subtract from it; a multipolygon contains a point that any
  of its polygons contains. The containment test of a single ring is the parameter
  \<open>rc\<close>, so that every theorem holds for whatever that primitive computes.
\<close>

fun PolygonContains ::
    "(ring \<Rightarrow> point \<Rightarrow> bool) \<Rightarrow> polygon \<Rightarrow> point \<Rightarrow> bool" where
  "PolygonContains rc [] pt = False"
| "PolygonContains rc (outer # holes) pt =
     (rc outer pt \<and> \<not> list_ex (\<lambda>h. rc h pt) holes)"

fun MultiPolygonContains ::
    "(ring \<Rightarrow> point \<Rightarrow> bool) \<Rightarrow> polygon list \<Rightarrow> point \<Rightarrow> bool" where
  "MultiPolygonContains rc [] pt = False"
| "MultiPolygonContains rc (p # ps) pt =
     (if PolygonContains rc p pt then True else MultiPolygonContains rc ps pt)"

text \<open>
  Modelled from the spec: the ring primitive itself (\<^verbatim>\<open>planar.RingContains\<close> of the
  same library), as the even-odd rule of ray casting: a point is inside when a ray from
  it crosses the ring's edges an odd number of times. It instantiates \<open>rc\<close> in the
  examples.
\<close>

definition rayCrosses :: "point \<Rightarrow> point \<times> point \<Rightarrow> bool" where
  "rayCrosses pt e =
     (case (pt, e) of
        ((x, y), ((x1, y1), (x2, y2))) \<Rightarrow>
          ((y < y1) \<noteq> (y < y2)) \<and> x < (x2 - x1) * (y - y1) / (y2 - y1) + x1)"

definition ringEdges :: "ring \<Rightarrow> (point \<times> point) list" where
  "ringEdges r = (case r of [] \<Rightarrow> [] | p # ps \<Rightarrow> zip r (ps @ [p]))"

definition RingContains :: "ring \<Rightarrow> point \<Rightarrow> bool" where
  "RingContains r pt = odd (length (filter (rayCrosses pt) (ringEdges r)))"

subsection \<open>Features and the catalog\<close>

text \<open>
  A value stored in \<^verbatim>\<open>geojson.Feature.Properties\<close>, a \<^verbatim>\<open>map[string]interface{}\<close>:
  a \<^verbatim>\<open>string\<close>, a \<^verbatim>\<open>[]string\<close>, a \<^verbatim>\<open>[]interface{}\<close> or \<^verbatim>\<open>nil\<close>. The dynamic
  type matters: a type assertion to \<^verbatim>\<open>[]interface{}\<close> fails on a \<^verbatim>\<open>[]string\<close>.
\<close>

datatype pval =
    PStr string
  | PStrs "string list"
  | PList "pval list"
  | PNil

record feature =
  Type :: string
  Properties :: "string \<Rightarrow> pval option"
  Geometry :: "geometry option"

record CountryCoder =
  features :: "feature list"
  featuresByCode :: "string \<Rightarrow> feature option"
  levels :: "string list"

record CodingOptions =
  Level :: string
  MaxLevel :: string
  WithProp :: string

text \<open>\<^verbatim>\<open>RegionFeatureProperties\<close>, the fields named by their JSON keys.\<close>

record RegionFeatureProperties =
  prop_id :: string
  prop_iso1A2 :: string
  prop_iso1A3 :: string
  prop_iso1N3 :: string
  prop_m49 :: string
  prop_wikidata :: string
  prop_emojiFlag :: string
  prop_ccTLD :: string
  prop_nameEn :: string
  prop_aliases :: "string list"
  prop_country :: string
  prop_groups :: "string list"
  prop_members :: "string list"
  prop_level :: string
  prop_isoStatus :: string
  prop_driveSide :: string
  prop_callingCodes :: "string list"

text \<open>
  \<^verbatim>\<open>RegionFeature\<close>. The raw geometry message is \<open>None\<close> when it is empty or the
  text \<^verbatim>\<open>null\<close>, and its decoded JSON value otherwise.
\<close>

record RegionFeature =
  RType :: string
  RProperties :: RegionFeatureProperties
  RGeometry :: "jval option"

definition defaultLevels :: "string list" where
  "defaultLevels =
     [''subterritory'', ''territory'', ''subcountryGroup'', ''country'',
      ''sharedLandform'', ''intermediateRegion'', ''subregion'', ''region'',
      ''subunion'', ''union'', ''unitedNations'', ''world'']"

text \<open>\<^verbatim>\<open>feature.Properties[k].(string)\<close>: the string, when the assertion holds.\<close>

definition propString :: "feature \<Rightarrow> string \<Rightarrow> string option" where
  "propString f k = (case Properties f k of Some (PStr s) \<Rightarrow> Some s | _ \<Rightarrow> None)"

text \<open>
  The idiom \<^verbatim>\<open>v, ok := feature.Properties[k].(string); ok && v != ""\<close>: the string,
  when the assertion holds and the string is not empty.
\<close>

definition nonEmptyProp :: "feature \<Rightarrow> string \<Rightarrow> string option" where
  "nonEmptyProp f k =
     (case propString f k of
        Some v \<Rightarrow> if v \<noteq> [] then Some v else None
      | None \<Rightarrow> None)"

text \<open>The properties map that \<^verbatim>\<open>NewCountryCoder\<close> builds for a region.\<close>

definition regionProperties ::
    "RegionFeatureProperties \<Rightarrow> string \<Rightarrow> pval option" where
  "regionProperties p =
     map_of
       [(''id'', PStr (prop_id p)),
        (''iso1A2'', PStr (prop_iso1A2 p)),
        (''iso1A3'', PStr (prop_iso1A3 p)),
        (''iso1N3'', PStr (prop_iso1N3 p)),
        (''m49'', PStr (prop_m49 p)),
        (''wikidata'', PStr (prop_wikidata p)),
        (''emojiFlag'', PStr (prop_emojiFlag p)),
        (''ccTLD'', PStr (prop_ccTLD p)),
        (''nameEn'', PStr (prop_nameEn p)),
        (''aliases'', PStrs (prop_aliases p)),
        (''country'', PStr (prop_country p)),
        (''groups'', PStrs (prop_groups p)),
        (''members'', PStrs (prop_members p)),
        (''level'', PStr (prop_level p)),
        (''isoStatus'', PStr (prop_isoStatus p)),
        (''driveSide'', PStr (prop_driveSide p)),
        (''callingCodes'', PStrs (prop_callingCodes p))]"

text \<open>
  The geometry switch of \<^verbatim>\<open>NewCountryCoder\<close>: the message must decode to an object
  with a string \<^verbatim>\<open>type\<close> and a \<^verbatim>\<open>coordinates\<close> entry; anything else leaves the
  feature without geometry.
\<close>

fun pointGeometry :: "jval \<Rightarrow> geometry option" where
  "pointGeometry (JArr (JNum lng # JNum lat # rest)) = Some (GPoint (lng, lat))"
| "pointGeometry coords = None"

definition parseGeometry :: "jval \<Rightarrow> geometry option" where
  "parseGeometry g =
     (case g of
        JObj geomData \<Rightarrow>
          (case map_of geomData ''type'' of
             Some (JStr geomType) \<Rightarrow>
               (case map_of geomData ''coordinates'' of
                  Some coords \<Rightarrow>
                    if geomType = ''Polygon'' then map_option GPolygon (coordsToPolygon coords)
                    else if geomType = ''MultiPolygon''
                      then map_option GMultiPolygon (coordsToMultiPolygon coords)
                    else if geomType = ''Point'' then pointGeometry coords
                    else None
                | None \<Rightarrow> None)
           | _ \<Rightarrow> None)
      | _ \<Rightarrow> None)"

definition convertFeature :: "RegionFeature \<Rightarrow> feature" where
  "convertFeature rf =
     \<lparr>Type = RType rf,
      Properties = regionProperties (RProperties rf),
      Geometry = (case RGeometry rf of None \<Rightarrow> None | Some g \<Rightarrow> parseGeometry g)\<rparr>"

text \<open>\<^verbatim>\<open>cacheFeatureByIDs\<close>: its three loops, each over the slice it ranges on.\<close>

definition idProps :: "string list" where
  "idProps = [''id'', ''iso1A2'', ''iso1A3'', ''iso1N3'', ''m49'', ''wikidata'',
              ''emojiFlag'', ''ccTLD'', ''nameEn'']"

fun collectProps ::
    "feature \<Rightarrow> string list \<Rightarrow> string list \<Rightarrow> string list" where
  "collectProps f ids [] = ids"
| "collectProps f ids (prop # props) =
     (case nonEmptyProp f prop of
        Some val \<Rightarrow> collectProps f (ids @ [val]) props
      | None \<Rightarrow> collectProps f ids props)"

fun collectAliases :: "string list \<Rightarrow> pval list \<Rightarrow> string list" where
  "collectAliases ids [] = ids"
| "collectAliases ids (PStr aliasStr # aliases) = collectAliases (ids @ [aliasStr]) aliases"
| "collectAliases ids (alias # aliases) = collectAliases ids aliases"

fun storeIDs ::
    "(string \<Rightarrow> string) \<Rightarrow> CountryCoder \<Rightarrow> feature \<Rightarrow> string list \<Rightarrow> CountryCoder" where
  "storeIDs u cc f [] = cc"
| "storeIDs u cc f (ident # ids) =
     (let cid = canonicalID u ident
      in if cid \<noteq> []
         then storeIDs u (cc\<lparr>featuresByCode := (featuresByCode cc)(cid \<mapsto> f)\<rparr>) f ids
         else storeIDs u cc f ids)"

definition cacheFeatureByIDs ::
    "(string \<Rightarrow> string) \<Rightarrow> CountryCoder \<Rightarrow> feature \<Rightarrow> CountryCoder" where
  "cacheFeatureByIDs u cc f =
     (let ids = collectProps f [] idProps;
          ids' = (case Properties f ''aliases'' of
                    Some (PList aliases) \<Rightarrow> collectAliases ids aliases
                  | _ \<Rightarrow> ids)
      in storeIDs u cc f ids')"

text \<open>
  \<^verbatim>\<open>NewCountryCoder\<close>, from the decoded feature collection on (reading the file and
  decoding it are outside the model): every region is converted, appended to the list
  and indexed, in the order of the collection.
\<close>

fun loadFeatures ::
    "(string \<Rightarrow> string) \<Rightarrow> CountryCoder \<Rightarrow> RegionFeature list \<Rightarrow> CountryCoder" where
  "loadFeatures u cc [] = cc"
| "loadFeatures u cc (rf # rfs) =
     (let f = convertFeature rf
      in loadFeatures u (cacheFeatureByIDs u (cc\<lparr>features := features cc @ [f]\<rparr>) f) rfs)"

definition NewCountryCoder ::
    "(string \<Rightarrow> string) \<Rightarrow> RegionFeature list \<Rightarrow> CountryCoder" where
  "NewCountryCoder u collection =
     loadFeatures u \<lparr>features = [], featuresByCode = Map.empty, levels = defaultLevels\<rparr>
       collection"

subsection \<open>Lookups\<close>

text \<open>The loop of \<^verbatim>\<open>SmallestFeature\<close> over \<^verbatim>\<open>cc.features\<close>, with its type switch.\<close>

fun firstContaining ::
    "(ring \<Rightarrow> point \<Rightarrow> bool) \<Rightarrow> feature list \<Rightarrow> point \<Rightarrow> feature option" where
  "firstContaining rc [] pt = None"
| "firstContaining rc (f # fs) pt =
     (case Geometry f of
        None \<Rightarrow> firstContaining rc fs pt
      | Some (GPolygon geom) \<Rightarrow>
          if PolygonContains rc geom pt then Some f else firstContaining rc fs pt
      | Some (GMultiPolygon geom) \<Rightarrow>
          if MultiPolygonContains rc geom pt then Some f else firstContaining rc fs pt
      | Some (GPoint geom) \<Rightarrow> firstContaining rc fs pt)"

definition SmallestFeature ::
    "(ring \<Rightarrow> point \<Rightarrow> bool) \<Rightarrow>
     CountryCoder \<Rightarrow> real \<Rightarrow> real \<Rightarrow> feature option" where
  "SmallestFeature rc cc lat lng = firstContaining rc (features cc) (lng, lat)"

definition FeatureForID ::
    "(string \<Rightarrow> string) \<Rightarrow> CountryCoder \<Rightarrow> string \<Rightarrow> feature option" where
  "FeatureForID u cc ident = featuresByCode cc (canonicalID u ident)"

definition hasProperty :: "feature \<Rightarrow> string \<Rightarrow> bool" where
  "hasProperty f prop =
     (case Properties f prop of
        None \<Rightarrow> False
      | Some (PStr str) \<Rightarrow> str \<noteq> []
      | Some PNil \<Rightarrow> False
      | Some val \<Rightarrow> True)"

fun indexFrom :: "int \<Rightarrow> string list \<Rightarrow> string \<Rightarrow> int" where
  "indexFrom i [] level = - 1"
| "indexFrom i (l # ls) level = (if l = level then i else indexFrom (i + 1) ls level)"

definition levelIndex :: "CountryCoder \<Rightarrow> string \<Rightarrow> int" where
  "levelIndex cc level = indexFrom 0 (levels cc) level"

definition matchesLevel ::
    "CountryCoder \<Rightarrow> feature \<Rightarrow> string \<Rightarrow> string \<Rightarrow> bool" where
  "matchesLevel cc f targetLevel maxLevel =
     (case propString f ''level'' of
        Some level \<Rightarrow>
          if level = targetLevel then True
          else (let levelIdx = levelIndex cc level;
                    targetLevelIndex = levelIndex cc targetLevel;
                    maxLevelIndex = levelIndex cc maxLevel
                in targetLevelIndex < levelIdx \<and> levelIdx \<le> maxLevelIndex)
      | None \<Rightarrow> False)"

definition countryFeature ::
    "(ring \<Rightarrow> point \<Rightarrow> bool) \<Rightarrow> (string \<Rightarrow> string) \<Rightarrow>
     CountryCoder \<Rightarrow> real \<Rightarrow> real \<Rightarrow> feature option" where
  "countryFeature rc u cc lat lng =
     (case SmallestFeature rc cc lat lng of
        None \<Rightarrow> None
      | Some f \<Rightarrow>
          (case nonEmptyProp f ''country'' of
             Some country \<Rightarrow> FeatureForID u cc country
           | None \<Rightarrow>
               (case nonEmptyProp f ''iso1A2'' of
                  Some iso1A2 \<Rightarrow> FeatureForID u cc iso1A2
                | None \<Rightarrow> Some f)))"

text \<open>The walk of \<^verbatim>\<open>featureForLoc\<close> through the \<^verbatim>\<open>groups\<close> of the smallest feature.\<close>

fun walkGroups ::
    "(string \<Rightarrow> string) \<Rightarrow> CountryCoder \<Rightarrow> string \<Rightarrow> string \<Rightarrow> string \<Rightarrow> pval list \<Rightarrow> feature option" where
  "walkGroups u cc targetLevel maxLevel withProp [] = None"
| "walkGroups u cc targetLevel maxLevel withProp (PStr groupIDStr # groups) =
     (case FeatureForID u cc groupIDStr of
        Some groupFeature \<Rightarrow>
          if matchesLevel cc groupFeature targetLevel maxLevel \<and>
             (withProp = [] \<or> hasProperty groupFeature withProp)
          then Some groupFeature
          else walkGroups u cc targetLevel maxLevel withProp groups
      | None \<Rightarrow> walkGroups u cc targetLevel maxLevel withProp groups)"
| "walkGroups u cc targetLevel maxLevel withProp (groupID # groups) =
     walkGroups u cc targetLevel maxLevel withProp groups"

text \<open>The fast path of \<^verbatim>\<open>featureForLoc\<close>: what it returns, \<open>None\<close> when it falls through.\<close>

definition fastPath ::
    "(ring \<Rightarrow> point \<Rightarrow> bool) \<Rightarrow> (string \<Rightarrow> string) \<Rightarrow>
     CountryCoder \<Rightarrow> real \<Rightarrow> real \<Rightarrow> string \<Rightarrow> string \<Rightarrow> feature option" where
  "fastPath rc u cc lat lng targetLevel withProp =
     (if targetLevel = ''country''
      then (case countryFeature rc u cc lat lng of
              Some f \<Rightarrow> if withProp = [] \<or> hasProperty f withProp then Some f else None
            | None \<Rightarrow> None)
      else None)"

text \<open>The general path of \<^verbatim>\<open>featureForLoc\<close>, from \<^verbatim>\<open>SmallestFeature\<close> on.\<close>

definition generalPath ::
    "(ring \<Rightarrow> point \<Rightarrow> bool) \<Rightarrow> (string \<Rightarrow> string) \<Rightarrow>
     CountryCoder \<Rightarrow> real \<Rightarrow> real \<Rightarrow> string \<Rightarrow> string \<Rightarrow> string \<Rightarrow> feature option" where
  "generalPath rc u cc lat lng targetLevel maxLevel withProp =
     (case SmallestFeature rc cc lat lng of
        None \<Rightarrow> None
      | Some smallest \<Rightarrow>
          (let targetLevelIndex = levelIndex cc targetLevel;
               maxLevelIndex = levelIndex cc maxLevel
           in if targetLevelIndex = - 1 \<or> maxLevelIndex = - 1 \<or> maxLevelIndex < targetLevelIndex
              then None
              else if matchesLevel cc smallest targetLevel maxLevel \<and>
                      (withProp = [] \<or> hasProperty smallest withProp)
              then Some smallest
              else (case Properties smallest ''groups'' of
                      Some (PList groups) \<Rightarrow> walkGroups u cc targetLevel maxLevel withProp groups
                    | _ \<Rightarrow> None)))"

text \<open>The defaults of \<^verbatim>\<open>featureForLoc\<close> for an empty level and an empty max level.\<close>

definition targetLevelOf :: "CodingOptions \<Rightarrow> string" where
  "targetLevelOf opts = (if Level opts = [] then ''country'' else Level opts)"

definition maxLevelOf :: "CodingOptions \<Rightarrow> string" where
  "maxLevelOf opts = (if MaxLevel opts = [] then ''world'' else MaxLevel opts)"

definition featureForLoc ::
    "(ring \<Rightarrow> point \<Rightarrow> bool) \<Rightarrow> (string \<Rightarrow> string) \<Rightarrow>
     CountryCoder \<Rightarrow> real \<Rightarrow> real \<Rightarrow> CodingOptions \<Rightarrow> feature option" where
  "featureForLoc rc u cc lat lng opts =
     (let targetLevel = targetLevelOf opts;
          maxLevel = maxLevelOf opts;
          withProp = WithProp opts
      in case fastPath rc u cc lat lng targetLevel withProp of
           Some f \<Rightarrow> Some f
         | None \<Rightarrow> generalPath rc u cc lat lng targetLevel maxLevel withProp)"

definition ISO1A2Code ::
    "(ring \<Rightarrow> point \<Rightarrow> bool) \<Rightarrow> (string \<Rightarrow> string) \<Rightarrow> CountryCoder \<Rightarrow> real \<Rightarrow> real \<Rightarrow> string" where
  "ISO1A2Code rc u cc lat lng =
     (case featureForLoc rc u cc lat lng \<lparr>Level = [], MaxLevel = [], WithProp = ''iso1A2''\<rparr> of
        None \<Rightarrow> []
      | Some f \<Rightarrow> (case propString f ''iso1A2'' of Some code \<Rightarrow> code | None \<Rightarrow> []))"

definition NameEnByCode ::
    "(string \<Rightarrow> string) \<Rightarrow> CountryCoder \<Rightarrow> string \<Rightarrow> string" where
  "NameEnByCode u cc code =
     (case FeatureForID u cc code of
        None \<Rightarrow> ToUpper u code
      | Some f \<Rightarrow> (case propString f ''nameEn'' of Some name \<Rightarrow> name | None \<Rightarrow> ToUpper u code))"

definition getCodeFromFeature ::
    "(string \<Rightarrow> string) \<Rightarrow> feature \<Rightarrow> string" where
  "getCodeFromFeature l f =
     (case nonEmptyProp f ''country'' of
        Some country \<Rightarrow> ToLower l country
      | None \<Rightarrow>
          (case nonEmptyProp f ''nameEn'' of
             Some nameEn \<Rightarrow> ToLower l nameEn
           | None \<Rightarrow>
               (case nonEmptyProp f ''iso1A2'' of
                  Some iso1A2 \<Rightarrow> ToLower l iso1A2
                | None \<Rightarrow> ''??'')))"

text \<open>The fallback loop of \<^verbatim>\<open>CodeByLocation\<close> over \<^verbatim>\<open>cc.features\<close>.\<close>

fun codeFallback ::
    "(ring \<Rightarrow> point \<Rightarrow> bool) \<Rightarrow> (string \<Rightarrow> string) \<Rightarrow> feature list \<Rightarrow> point \<Rightarrow> string" where
  "codeFallback rc l [] pt = ''??''"
| "codeFallback rc l (f # fs) pt =
     (case Geometry f of
        Some (GPolygon geom) \<Rightarrow>
          if PolygonContains rc geom pt then getCodeFromFeature l f else codeFallback rc l fs pt
      | Some (GMultiPolygon geom) \<Rightarrow>
          if MultiPolygonContains rc geom pt then getCodeFromFeature l f
          else codeFallback rc l fs pt
      | _ \<Rightarrow> codeFallback rc l fs pt)"

definition CodeByLocation ::
    "(ring \<Rightarrow> point \<Rightarrow> bool) \<Rightarrow> (string \<Rightarrow> string) \<Rightarrow> (string \<Rightarrow> string) \<Rightarrow> CountryCoder \<Rightarrow> real \<Rightarrow> real \<Rightarrow> string" where
  "CodeByLocation rc u l cc lat lng =
     (let code = ISO1A2Code rc u cc lat lng
      in if code \<noteq> [] then ToLower l code
         else codeFallback rc l (features cc) (lng, lat))"

subsection \<open>The claims' own notions\<close>

text \<open>
  A feature covers a point when its geometry is a polygon that contains the point, or a
  multipolygon of which some polygon contains it; a feature without geometry, or with a
  point geometry, covers nothing.
\<close>

definition covers ::
    "(ring \<Rightarrow> point \<Rightarrow> bool) \<Rightarrow> feature \<Rightarrow> point \<Rightarrow> bool" where
  "covers rc f pt =
     (case Geometry f of
        Some (GPolygon p) \<Rightarrow> PolygonContains rc p pt
      | Some (GMultiPolygon mp) \<Rightarrow> list_ex (\<lambda>p. PolygonContains rc p pt) mp
      | _ \<Rightarrow> False)"

text \<open>A feature of which the point geometry, if it has one, is taken away.\<close>

definition withoutPoint :: "feature \<Rightarrow> feature" where
  "withoutPoint f = (case Geometry f of Some (GPoint p) \<Rightarrow> f\<lparr>Geometry := None\<rparr> | _ \<Rightarrow> f)"

text \<open>
  The level of a feature lies between the target level and the max level: it is a level
  of the rank list, no more granular than the target and no coarser than the max level.
\<close>

definition levelWithin ::
    "CountryCoder \<Rightarrow> string \<Rightarrow> string \<Rightarrow> feature \<Rightarrow> bool" where
  "levelWithin cc targetLevel maxLevel f =
     (case propString f ''level'' of
        Some level \<Rightarrow>
          0 \<le> levelIndex cc level \<and>
          levelIndex cc targetLevel \<le> levelIndex cc level \<and>
          levelIndex cc level \<le> levelIndex cc maxLevel
      | None \<Rightarrow> False)"

text \<open>
  A request that the level check of \<^verbatim>\<open>featureForLoc\<close> rejects: an unknown target
  level, an unknown max level, or a max level more granular than the target.
\<close>

definition invalidLevels ::
    "CountryCoder \<Rightarrow> string \<Rightarrow> string \<Rightarrow> bool" where
  "invalidLevels cc targetLevel maxLevel =
     (levelIndex cc targetLevel = - 1 \<or> levelIndex cc maxLevel = - 1 \<or>
      levelIndex cc maxLevel < levelIndex cc targetLevel)"

text \<open>
  What the specification says of the normalizer, in its own words and with its own
  lists: the six stop words, the twelve listed characters (hyphen, underscore, space,
  period, comma, apostrophe, parentheses, ampersand, brackets, forward slash), and
  upper-casing as the table of the twenty-six letters. A word character is a letter, a
  digit or the underscore, and a standalone word is a maximal run of word characters. A
  run that is one of the stop words is stripped as a whole; everywhere else the listed
  characters are stripped, one by one, and nothing more.
\<close>

definition specStopWords :: "string list" where
  "specStopWords = [''and'', ''the'', ''of'', ''el'', ''la'', ''de'']"

definition specListed :: "char \<Rightarrow> bool" where
  "specListed c =
     (c \<in> set [CHR ''-'', CHR ''_'', CHR '' '', CHR ''.'', CHR '','', CHR 0x27,
                CHR ''('', CHR '')'', CHR ''&'', CHR ''['', CHR '']'', CHR ''/''])"

definition specWordChar :: "char \<Rightarrow> bool" where
  "specWordChar c =
     (c \<in> set (''abcdefghijklmnopqrstuvwxyz'' @ ''ABCDEFGHIJKLMNOPQRSTUVWXYZ''
                @ ''0123456789'' @ ''_''))"

definition specUpperChar :: "char \<Rightarrow> char" where
  "specUpperChar c =
     (case map_of (zip ''abcdefghijklmnopqrstuvwxyz'' ''ABCDEFGHIJKLMNOPQRSTUVWXYZ'') c of
        Some d \<Rightarrow> d
      | None \<Rightarrow> c)"

definition keepRun :: "string \<Rightarrow> string" where
  "keepRun run =
     (if run \<in> set specStopWords then [] else filter (\<lambda>c. \<not> specListed c) run)"

function specStrip :: "string \<Rightarrow> string" where
  "specStrip [] = []"
| "specStrip (c # cs) =
     (if specWordChar c
      then keepRun (takeWhile specWordChar (c # cs))
           @ specStrip (dropWhile specWordChar (c # cs))
      else (if specListed c then [] else [c]) @ specStrip cs)"
  by pat_completeness auto
termination
  by (relation "measure length") (auto simp: length_dropWhile_le less_Suc_eq_le)



subsection \<open>Example catalogs\<close>

definition noProperties :: RegionFeatureProperties where
  "noProperties =
     \<lparr>prop_id = [], prop_iso1A2 = [], prop_iso1A3 = [], prop_iso1N3 = [], prop_m49 = [],
      prop_wikidata = [], prop_emojiFlag = [], prop_ccTLD = [], prop_nameEn = [],
      prop_aliases = [], prop_country = [], prop_groups = [], prop_members = [],
      prop_level = [], prop_isoStatus = [], prop_driveSide = [], prop_callingCodes = []\<rparr>"

text \<open>A rectangle polygon, as GeoJSON: longitude \<open>w\<close> to \<open>e\<close>, latitude \<open>s\<close> to \<open>n\<close>.\<close>

definition rectangle ::
    "real \<Rightarrow> real \<Rightarrow> real \<Rightarrow> real \<Rightarrow> jval" where
  "rectangle w e s n =
     JObj [(''type'', JStr ''Polygon''),
           (''coordinates'',
            JArr [JArr [JArr [JNum w, JNum s], JArr [JNum e, JNum s],
                        JArr [JNum e, JNum n], JArr [JNum w, JNum n]]])]"

text \<open>
  Scenario 1 of the specification: region A (level country, id US, a rectangle spanning
  longitude -130 to -60 and latitude 20 to 50) and region B (level world, id EARTH, no
  geometry).
\<close>

definition regionUS :: RegionFeature where
  "regionUS =
     \<lparr>RType = ''Feature'',
      RProperties = noProperties\<lparr>prop_id := ''US'', prop_level := ''country''\<rparr>,
      RGeometry = Some (rectangle (- 130) (- 60) 20 50)\<rparr>"

definition regionEarth :: RegionFeature where
  "regionEarth =
     \<lparr>RType = ''Feature'',
      RProperties = noProperties\<lparr>prop_id := ''EARTH'', prop_level := ''world''\<rparr>,
      RGeometry = None\<rparr>"

definition scenario1 :: CountryCoder where
  "scenario1 = NewCountryCoder asciiOnlyUpper [regionUS, regionEarth]"

text \<open>
  Two overlapping regions behind a region without geometry: a large box at level region,
  loaded before the smaller rectangle of the country inside it.
\<close>

definition regionBig :: RegionFeature where
  "regionBig =
     \<lparr>RType = ''Feature'',
      RProperties = noProperties\<lparr>prop_id := ''BIG'', prop_level := ''region''\<rparr>,
      RGeometry = Some (rectangle (- 180) 180 (- 90) 90)\<rparr>"

definition overlapping :: CountryCoder where
  "overlapping = NewCountryCoder asciiOnlyUpper [regionEarth, regionBig, regionUS]"

text \<open>A region with a point geometry.\<close>

definition regionPoint :: RegionFeature where
  "regionPoint =
     \<lparr>RType = ''Feature'',
      RProperties = noProperties\<lparr>prop_id := ''PT'', prop_level := ''country''\<rparr>,
      RGeometry = Some (JObj [(''type'', JStr ''Point''),
                              (''coordinates'', JArr [JNum (- 100), JNum 40])])\<rparr>"

text \<open>
  A territory that names its country, in a catalog that does not hold the country; and
  a territory that names no country and has no ISO code.
\<close>

definition regionGuam :: RegionFeature where
  "regionGuam =
     \<lparr>RType = ''Feature'',
      RProperties = noProperties\<lparr>prop_id := ''GU'', prop_iso1A2 := ''GU'',
        prop_nameEn := ''Guam'', prop_country := ''US'', prop_level := ''territory''\<rparr>,
      RGeometry = Some (rectangle 144 145 13 14)\<rparr>"

definition guamOnly :: CountryCoder where
  "guamOnly = NewCountryCoder asciiOnlyUpper [regionGuam]"

definition regionIsland :: RegionFeature where
  "regionIsland =
     \<lparr>RType = ''Feature'',
      RProperties = noProperties\<lparr>prop_id := ''ISLE'', prop_level := ''territory''\<rparr>,
      RGeometry = Some (rectangle 0 10 0 10)\<rparr>"

definition islandOnly :: CountryCoder where
  "islandOnly = NewCountryCoder asciiOnlyUpper [regionIsland]"

section \<open>Properties of the canonical-ID normalizer\<close>

subsection \<open>Case mapping and the character class\<close>




lemma filterChar_not_lower: "isFilterChar c \<Longrightarrow> \<not> isLower c"
  by (auto simp: isFilterChar_def filterChars_def isLower_def)



lemma map_upperChar_fixed: "\<forall>x \<in> set s. \<not> isLower x \<Longrightarrow> map upperChar s = s"
  by (auto simp: upperChar_def intro: map_idI)


lemma ToUpper_ascii: "list_all isASCII s \<Longrightarrow> ToUpper u s = map upperChar s"
  by (auto simp: ToUpper_def list_ex_iff map_upperChar_fixed)





lemma matchStopWord_lower:
  "matchStopWord prev (c # cs) = Some w \<Longrightarrow> isLower c"
  by (auto simp: matchStopWord_def stopWords_def isLower_def split: if_splits)





subsection \<open>Idempotence\<close>




subsection \<open>Stop words and punctuation\<close>

lemma stopWords_cases:
  "w \<in> set stopWords \<Longrightarrow>
   w = ''and'' \<or> w = ''the'' \<or> w = ''of'' \<or> w = ''el'' \<or> w = ''la'' \<or> w = ''de''"
  by (simp add: stopWords_def)

lemma stopWords_chars:
  assumes "w \<in> set stopWords"
  shows "w \<noteq> [] \<and> (\<forall>c \<in> set w. isWordChar c)"
  using stopWords_cases [OF assms] by (elim disjE) (simp_all add: isWordChar_def)


lemma isLower_isWordChar: "isLower c \<Longrightarrow> isWordChar c"
  by (simp add: isLower_def isWordChar_def)

lemma wordBoundary_append:
  "\<not> isWordChar x \<Longrightarrow> wordBoundary p (d @ x # b) = wordBoundary p d"
  by (cases d) (simp_all add: wordBoundary_def)

lemma stopWord_test_append:
  assumes "w \<in> set stopWords" and "\<not> isWordChar x"
  shows "(take (length w) (a @ x # b) = w \<and>
            wordBoundary (Some (last w)) (drop (length w) (a @ x # b)))
         = (take (length w) a = w \<and> wordBoundary (Some (last w)) (drop (length w) a))"
proof (cases "length w \<le> length a")
  case True
  then show ?thesis using assms(2) by (simp add: wordBoundary_append)
next
  case False
  have "take (length w) a \<noteq> w"
  proof
    assume "take (length w) a = w"
    then have "length (take (length w) a) = length w" by simp
    with False show False by simp
  qed
  moreover have "take (length w) (a @ x # b) \<noteq> w"
  proof
    assume eq: "take (length w) (a @ x # b) = w"
    from False obtain k where k: "length w - length a = Suc k"
      by (cases "length w - length a") auto
    from False k have "take (length w) (a @ x # b) = a @ x # take k b" by simp
    with eq have "x \<in> set w" by auto
    with stopWords_chars [OF assms(1)] assms(2) show False by blast
  qed
  ultimately show ?thesis by simp
qed

lemma matchStopWord_append:
  assumes "\<not> isWordChar x"
  shows "matchStopWord prev ((c # cs) @ x # b) = matchStopWord prev (c # cs)"
proof -
  have "find (\<lambda>w. take (length w) ((c # cs) @ x # b) = w \<and>
                 wordBoundary (Some (last w)) (drop (length w) ((c # cs) @ x # b))) stopWords
      = find (\<lambda>w. take (length w) (c # cs) = w \<and>
                 wordBoundary (Some (last w)) (drop (length w) (c # cs))) stopWords"
    by (rule find_cong [OF refl]) (rule stopWord_test_append [OF _ assms])
  then show ?thesis by (simp add: matchStopWord_def wordBoundary_def)
qed

lemma matchStopWord_Some:
  "matchStopWord prev s = Some w \<Longrightarrow> w \<in> set stopWords \<and> take (length w) s = w"
  by (auto simp: matchStopWord_def find_Some_iff split: if_splits)


lemma removeMatches_split:
  assumes nx: "\<not> isWordChar x"
  shows "removeMatches prev (a @ x # b)
         = removeMatches prev a
           @ removeMatches (if a = [] then prev else Some (last a)) (x # b)"
proof (induction a arbitrary: prev rule: length_induct)
  case (1 a)
  have IH: "removeMatches p (ys @ x # b)
         = removeMatches p ys @ removeMatches (if ys = [] then p else Some (last ys)) (x # b)"
    if "length ys < length a" for ys p
    using 1 that by blast
  show ?case
  proof (cases a)
    case Nil
    then show ?thesis by simp
  next
    case (Cons c cs)
    have m: "matchStopWord prev (c # cs @ x # b) = matchStopWord prev (c # cs)"
      using matchStopWord_append [OF nx, of prev c cs b] by simp
    show ?thesis
    proof (cases "matchStopWord prev (c # cs)")
      case None
      have "removeMatches (Some c) (cs @ x # b)
          = removeMatches (Some c) cs
            @ removeMatches (if cs = [] then Some c else Some (last cs)) (x # b)"
        by (rule IH) (simp add: Cons)
      moreover have "(if cs = [] then Some c else Some (last cs)) = Some (last (c # cs))"
        by simp
      ultimately show ?thesis using None m Cons by simp
    next
      case (Some w)
      from matchStopWord_Some [OF Some] stopWords_chars [of w]
      have w: "w \<noteq> []" and tk: "take (length w) (c # cs) = w" by auto
      have "length (take (length w) (c # cs)) \<le> length (c # cs)" by simp
      with tk have "length w \<le> length (c # cs)" by simp
      with w have len: "length w - 1 \<le> length cs" by simp
      define a' where "a' = drop (length w - 1) cs"
      from len have d: "drop (length w - 1) (cs @ x # b) = a' @ x # b" by (simp add: a'_def)
      have l: "(if a' = [] then Some (last w) else Some (last a')) = Some (last (c # cs))"
      proof (cases "a' = []")
        case True
        with len have "length cs = length w - 1" by (simp add: a'_def)
        with w have "length (c # cs) = length w" by (cases w) simp_all
        with tk have "c # cs = w" by simp
        with True show ?thesis by simp
      next
        case False
        then have "last a' = last cs" and "cs \<noteq> []" by (auto simp: a'_def)
        with False show ?thesis by simp
      qed
      have "removeMatches (Some (last w)) (a' @ x # b)
          = removeMatches (Some (last w)) a'
            @ removeMatches (if a' = [] then Some (last w) else Some (last a')) (x # b)"
        by (rule IH) (simp add: a'_def Cons)
      with Some m d l Cons show ?thesis by (simp add: a'_def)
    qed
  qed
qed


lemma matchStopWord_word:
  assumes "w \<in> set stopWords" and "\<not> wordSide prev" and "b = [] \<or> \<not> isWordChar (hd b)"
  shows "matchStopWord prev (w @ b) = Some w"
proof -
  have nb: "\<not> wordSide (case b of [] \<Rightarrow> None | c # _ \<Rightarrow> Some c)"
    using assms(3) by (cases b) auto
  from stopWords_cases [OF assms(1)] show ?thesis
    by (elim disjE)
       (simp_all add: matchStopWord_def wordBoundary_def stopWords_def isWordChar_def assms(2) nb)
qed

lemma removeMatches_prev:
  assumes "b = [] \<or> \<not> isWordChar (hd b)"
  shows "removeMatches p b = removeMatches p' b"
proof (cases b)
  case Nil
  then show ?thesis by simp
next
  case (Cons x xs)
  with assms have "\<not> isLower x" using isLower_isWordChar by auto
  then have "matchStopWord q (x # xs) = None" for q
    using matchStopWord_lower [of q x xs] by (cases "matchStopWord q (x # xs)") auto
  then show ?thesis using Cons by simp
qed

lemma removeMatches_word:
  assumes "w \<in> set stopWords" and "\<not> wordSide prev" and "b = [] \<or> \<not> isWordChar (hd b)"
  shows "removeMatches prev (w @ b) = removeMatches prev b"
proof -
  from stopWords_chars [OF assms(1)] obtain c cs where w: "w = c # cs" by (cases w) auto
  from matchStopWord_word [OF assms] w
  have "removeMatches prev (w @ b) = removeMatches (Some (last w)) b" by simp
  also have "\<dots> = removeMatches prev b" using assms(3) by (rule removeMatches_prev)
  finally show ?thesis .
qed

lemma removeMatches_drop_stopWord:
  assumes w: "w \<in> set stopWords"
    and a: "a = [] \<or> \<not> isWordChar (last a)"
    and b: "b = [] \<or> \<not> isWordChar (hd b)"
  shows "removeMatches None (a @ w @ b) = removeMatches None (a @ b)"
proof (cases "a = []")
  case True
  with removeMatches_word [OF w _ b, of None] show ?thesis by simp
next
  case False
  then obtain a' x where ax: "a = a' @ [x]" by (metis rev_exhaust)
  with a have nx: "\<not> isWordChar x" by simp
  define p where "p = (if a' = [] then None else Some (last a'))"
  have nl: "\<not> isLower x" using nx isLower_isWordChar by blast
  have nm: "matchStopWord p (x # r) = None" for r
    using matchStopWord_lower [of p x r] nl by (cases "matchStopWord p (x # r)") auto
  have "removeMatches (Some x) (w @ b) = removeMatches (Some x) b"
    using nx by (intro removeMatches_word [OF w _ b]) simp
  then have "removeMatches p (x # w @ b) = removeMatches p (x # b)"
    using nm by simp
  moreover have "removeMatches None (a' @ x # w @ b)
      = removeMatches None a' @ removeMatches p (x # w @ b)"
    unfolding p_def by (rule removeMatches_split [OF nx])
  moreover have "removeMatches None (a' @ x # b)
      = removeMatches None a' @ removeMatches p (x # b)"
    unfolding p_def by (rule removeMatches_split [OF nx])
  ultimately show ?thesis by (simp add: ax)
qed

lemma canonicalID_no_dot:
  "s = [] \<or> hd s \<noteq> CHR ''.'' \<Longrightarrow> canonicalID u s = ToUpper u (removeMatches None s)"
  by (auto simp: canonicalID_def ToUpper_def)

lemma all_chars: "list_all P (Enum.enum :: char list) \<Longrightarrow> P c"
  by (simp add: list_all_iff enum_UNIV)

lemma specWordChar_eq: "specWordChar = isWordChar"
proof
  fix c
  have "list_all (\<lambda>c. specWordChar c = isWordChar c) Enum.enum" by code_simp
  then show "specWordChar c = isWordChar c" by (rule all_chars)
qed

lemma specListed_eq: "specListed = isFilterChar"
proof
  fix c
  have "list_all (\<lambda>c. specListed c = isFilterChar c) Enum.enum" by code_simp
  then show "specListed c = isFilterChar c" by (rule all_chars)
qed

lemma specUpperChar_eq: "specUpperChar = upperChar"
proof
  fix c
  have "list_all (\<lambda>c. specUpperChar c = upperChar c) Enum.enum" by code_simp
  then show "specUpperChar c = upperChar c" by (rule all_chars)
qed

lemma specStopWords_eq: "specStopWords = stopWords"
  by (simp add: specStopWords_def stopWords_def)

lemmas spec_eqs = specWordChar_eq specListed_eq specStopWords_eq

lemma rest_after_run: "dropWhile isWordChar s = [] \<or> \<not> isWordChar (hd (dropWhile isWordChar s))"
  using hd_dropWhile [of isWordChar s] by blast

lemma takeWhile_word:
  assumes "\<forall>c \<in> set w. isWordChar c" and "d = [] \<or> \<not> isWordChar (hd d)"
  shows "takeWhile isWordChar (w @ d) = w"
proof -
  from assms(2) have "takeWhile isWordChar d = []" by (cases d) auto
  with assms(1) show ?thesis by (simp add: takeWhile_append2)
qed

lemma matchStopWord_run:
  assumes "matchStopWord prev s = Some w"
  shows "w \<in> set stopWords \<and> takeWhile isWordChar s = w"
proof -
  from assms have w: "w \<in> set stopWords" and tk: "take (length w) s = w"
    and bd: "wordBoundary (Some (last w)) (drop (length w) s)"
    by (auto simp: matchStopWord_def find_Some_iff split: if_splits)
  from stopWords_chars [OF w] have ch: "\<forall>c \<in> set w. isWordChar c" and ne: "w \<noteq> []" by auto
  then have "isWordChar (last w)" by simp
  with bd have d: "drop (length w) s = [] \<or> \<not> isWordChar (hd (drop (length w) s))"
    by (cases "drop (length w) s") (auto simp: wordBoundary_def)
  have "s = w @ drop (length w) s" using tk by (metis append_take_drop_id)
  then have "takeWhile isWordChar s = takeWhile isWordChar (w @ drop (length w) s)" by simp
  also have "\<dots> = w" using ch d by (rule takeWhile_word)
  finally show ?thesis using w by simp
qed

lemma matchStopWord_at_run:
  assumes "\<not> wordSide prev"
  shows "matchStopWord prev s
         = (if takeWhile isWordChar s \<in> set stopWords then Some (takeWhile isWordChar s) else None)"
proof (cases "takeWhile isWordChar s \<in> set stopWords")
  case True
  have "matchStopWord prev (takeWhile isWordChar s @ dropWhile isWordChar s)
      = Some (takeWhile isWordChar s)"
    using True assms rest_after_run by (rule matchStopWord_word)
  with True show ?thesis by simp
next
  case False
  have "matchStopWord prev s = None"
  proof (cases "matchStopWord prev s")
    case (Some w)
    from matchStopWord_run [OF Some] False show ?thesis by simp
  qed simp
  with False show ?thesis by simp
qed

lemma removeMatches_in_run:
  "wordSide prev \<Longrightarrow>
   removeMatches prev s = filter (\<lambda>c. \<not> isFilterChar c) (takeWhile isWordChar s)
                          @ removeMatches prev (dropWhile isWordChar s)"
proof (induction s arbitrary: prev)
  case Nil
  then show ?case by simp
next
  case (Cons c cs)
  show ?case
  proof (cases "isWordChar c")
    case False
    then show ?thesis by simp
  next
    case True
    with Cons.prems have "\<not> wordBoundary prev (c # cs)" by (simp add: wordBoundary_def)
    then have m: "matchStopWord prev (c # cs) = None" by (simp add: matchStopWord_def)
    from True have "removeMatches (Some c) cs
        = filter (\<lambda>c. \<not> isFilterChar c) (takeWhile isWordChar cs)
          @ removeMatches (Some c) (dropWhile isWordChar cs)"
      by (intro Cons.IH) simp
    also have "removeMatches (Some c) (dropWhile isWordChar cs)
        = removeMatches prev (dropWhile isWordChar cs)"
      using rest_after_run by (rule removeMatches_prev)
    finally show ?thesis using m True by simp
  qed
qed

lemma removeMatches_specStrip:
  "\<not> wordSide prev \<Longrightarrow> removeMatches prev s = specStrip s"
proof (induction s arbitrary: prev rule: specStrip.induct [unfolded spec_eqs])
  case 1
  then show ?case by simp
next
  case (2 c cs)
  show ?case
  proof (cases "isWordChar c")
    case False
    then have "\<not> isLower c" using isLower_isWordChar by blast
    then have m: "matchStopWord prev (c # cs) = None"
      using matchStopWord_lower [of prev c cs] by (cases "matchStopWord prev (c # cs)") auto
    from False have "removeMatches (Some c) cs = specStrip cs"
      by (intro "2.IH"(2)) simp_all
    with m False show ?thesis by (simp add: spec_eqs)
  next
    case True
    define run where "run = takeWhile isWordChar (c # cs)"
    define rest where "rest = dropWhile isWordChar (c # cs)"
    have rest: "rest = [] \<or> \<not> isWordChar (hd rest)" unfolding rest_def by (rule rest_after_run)
    have runc: "run = c # takeWhile isWordChar cs" and restc: "rest = dropWhile isWordChar cs"
      using True by (simp_all add: run_def rest_def)
    have ih: "removeMatches p rest = specStrip rest" for p
    proof -
      have "removeMatches None rest = specStrip rest"
        unfolding rest_def using True by (intro "2.IH"(1)) simp_all
      moreover have "removeMatches p rest = removeMatches None rest"
        using rest by (rule removeMatches_prev)
      ultimately show ?thesis by simp
    qed
    have m: "matchStopWord prev (c # cs) = (if run \<in> set stopWords then Some run else None)"
      unfolding run_def using "2.prems" by (rule matchStopWord_at_run)
    show ?thesis
    proof (cases "run \<in> set stopWords")
      case sw: True
      have "drop (length run - 1) cs = rest"
        unfolding runc restc
        by (simp add: dropWhile_eq_drop)
      with m sw ih have "removeMatches prev (c # cs) = specStrip rest" by simp
      moreover from sw True have "specStrip (c # cs) = specStrip rest"
        by (simp add: keepRun_def run_def rest_def spec_eqs)
      ultimately show ?thesis by simp
    next
      case nsw: False
      have "removeMatches (Some c) cs
          = filter (\<lambda>c. \<not> isFilterChar c) (takeWhile isWordChar cs) @ removeMatches (Some c) rest"
        unfolding restc using True by (intro removeMatches_in_run) simp
      with m nsw ih have "removeMatches prev (c # cs)
          = filter (\<lambda>c. \<not> isFilterChar c) run @ specStrip rest"
        by (simp add: runc)
      moreover from nsw True have "specStrip (c # cs)
          = filter (\<lambda>c. \<not> isFilterChar c) run @ specStrip rest"
        by (simp add: keepRun_def run_def rest_def spec_eqs)
      ultimately show ?thesis by simp
    qed
  qed
qed

lemma canonicalID_specStrip:
  "canonicalID u s
   = (if s \<noteq> [] \<and> hd s = CHR ''.'' then ToUpper u s else ToUpper u (specStrip s))"
proof (cases "s = []")
  case True
  then show ?thesis by (simp add: canonicalID_def ToUpper_def)
next
  case False
  then show ?thesis
    using removeMatches_specStrip [of None s] by (simp add: canonicalID_def)
qed

text \<open>
  Claim C2, as amended. The normalizer strips the words and, the, of, el, la and de where
  they stand as whole words in lower case (the pattern carries no case-insensitive flag,
  so a capitalised or upper-case spelling is kept), strips the listed punctuation
  characters wherever they occur, strips nothing else, and upper-cases what remains: for
  an input without a leading dot the key is the upper-cased text of which exactly the
  stop-word runs and the listed characters are gone. On ASCII text the upper-casing
  shifts the lower-case letters and keeps every other byte. Deleting a stop word that
  stands between word boundaries does not change the key. Consequently
  \<^verbatim>\<open>the United States\<close>, \<^verbatim>\<open>united-states\<close> and \<^verbatim>\<open>UnitedStates\<close> all give the key
  \<^verbatim>\<open>UNITEDSTATES\<close>, while \<^verbatim>\<open>The United States\<close> gives \<^verbatim>\<open>THEUNITEDSTATES\<close>.
\<close>

theorem canonicalID_strips_lower_case_stop_words:
  "canonicalID u s
     = (if s \<noteq> [] \<and> hd s = CHR ''.'' then ToUpper u s else ToUpper u (specStrip s))
   \<and> (list_all isASCII s \<longrightarrow> ToUpper u s = map specUpperChar s)
   \<and> (w \<in> set specStopWords \<and> (a = [] \<or> \<not> specWordChar (last a))
      \<and> (b = [] \<or> \<not> specWordChar (hd b)) \<and> (a @ b = [] \<or> hd (a @ b) \<noteq> CHR ''.'')
     \<longrightarrow> canonicalID u (a @ w @ b) = canonicalID u (a @ b))
   \<and> canonicalID u ''the United States'' = ''UNITEDSTATES''
   \<and> canonicalID u ''united-states'' = ''UNITEDSTATES''
   \<and> canonicalID u ''UnitedStates'' = ''UNITEDSTATES''
   \<and> canonicalID u ''The United States'' = ''THEUNITEDSTATES''"
proof -
  have strip: "canonicalID u (a @ w @ b) = canonicalID u (a @ b)"
    if w: "w \<in> set stopWords" and a: "a = [] \<or> \<not> isWordChar (last a)"
      and b: "b = [] \<or> \<not> isWordChar (hd b)" and d: "a @ b = [] \<or> hd (a @ b) \<noteq> CHR ''.''"
  proof -
    have "hd (a @ w @ b) \<noteq> CHR ''.''"
    proof (cases "a = []")
      case True
      from stopWords_cases [OF w] have "hd w \<noteq> CHR ''.''" by (elim disjE) simp_all
      moreover from stopWords_chars [OF w] have "w \<noteq> []" by simp
      ultimately show ?thesis using True by simp
    next
      case False
      with d show ?thesis by simp
    qed
    then have "canonicalID u (a @ w @ b) = ToUpper u (removeMatches None (a @ w @ b))"
      by (simp add: canonicalID_no_dot)
    also have "\<dots> = ToUpper u (removeMatches None (a @ b))"
      by (simp only: removeMatches_drop_stopWord [OF w a b])
    also have "\<dots> = canonicalID u (a @ b)"
      using d by (simp only: canonicalID_no_dot)
    finally show ?thesis .
  qed
  have e1: "canonicalID u ''the United States'' = ''UNITEDSTATES''" by code_simp
  have e2: "canonicalID u ''united-states'' = ''UNITEDSTATES''" by code_simp
  have e3: "canonicalID u ''UnitedStates'' = ''UNITEDSTATES''" by code_simp
  have e4: "canonicalID u ''The United States'' = ''THEUNITEDSTATES''" by code_simp
  from canonicalID_specStrip [of u s] ToUpper_ascii [of s u] strip e1 e2 e3 e4
  show ?thesis unfolding spec_eqs specUpperChar_eq by blast
qed

theorem canonicalID_strips_lower_case_stop_words_witness:
  "canonicalID asciiOnlyUpper ''Bosnia and Herzegovina''
     = canonicalID asciiOnlyUpper ''Bosnia  Herzegovina''
   \<and> canonicalID asciiOnlyUpper ''Iceland'' = ''ICELAND''
   \<and> canonicalID asciiOnlyUpper ''Mexico (the)'' = ''MEXICO''"
proof -
  note t = canonicalID_strips_lower_case_stop_words
  have h1: "''and'' \<in> set specStopWords
      \<and> (''Bosnia '' = [] \<or> \<not> specWordChar (last ''Bosnia ''))
      \<and> ('' Herzegovina'' = [] \<or> \<not> specWordChar (hd '' Herzegovina''))
      \<and> (''Bosnia '' @ '' Herzegovina'' = [] \<or> hd (''Bosnia '' @ '' Herzegovina'') \<noteq> CHR ''.'')"
    by (simp add: specStopWords_def specWordChar_def)
  from t [of asciiOnlyUpper "[]" "''and''" "''Bosnia ''" "'' Herzegovina''"] h1
  have x: "canonicalID asciiOnlyUpper (''Bosnia '' @ ''and'' @ '' Herzegovina'')
      = canonicalID asciiOnlyUpper (''Bosnia '' @ '' Herzegovina'')"
    by blast
  have s1: "specStrip ''Iceland'' = ''Iceland''" by code_simp
  have a1: "list_all isASCII ''Iceland''" by (simp add: isASCII_def)
  have u1: "map specUpperChar ''Iceland'' = ''ICELAND''" by code_simp
  note t1 = t [of asciiOnlyUpper "''Iceland''" "[]" "[]" "[]"]
  from conjunct1 [OF t1, unfolded s1]
  have "canonicalID asciiOnlyUpper ''Iceland'' = ToUpper asciiOnlyUpper ''Iceland''"
    by simp
  moreover from t1 a1 have "ToUpper asciiOnlyUpper ''Iceland'' = map specUpperChar ''Iceland''"
    by blast
  ultimately have y: "canonicalID asciiOnlyUpper ''Iceland'' = ''ICELAND''"
    by (simp only: u1)
  have s2: "specStrip ''Mexico (the)'' = ''Mexico''" by code_simp
  have a2: "list_all isASCII ''Mexico''" by (simp add: isASCII_def)
  have u2: "map specUpperChar ''Mexico'' = ''MEXICO''" by code_simp
  from conjunct1 [OF t [of asciiOnlyUpper "''Mexico (the)''" "[]" "[]" "[]"], unfolded s2]
  have "canonicalID asciiOnlyUpper ''Mexico (the)'' = ToUpper asciiOnlyUpper ''Mexico''"
    by simp
  moreover from t [of asciiOnlyUpper "''Mexico''" "[]" "[]" "[]"] a2
  have "ToUpper asciiOnlyUpper ''Mexico'' = map specUpperChar ''Mexico''"
    by blast
  ultimately have z: "canonicalID asciiOnlyUpper ''Mexico (the)'' = ''MEXICO''"
    by (simp only: u2)
  from x y z show ?thesis by simp
qed

text \<open>
  The claim as stated fails at its own example: the capitalised article is not a match
  of the pattern, so the two spellings get different keys.
\<close>

theorem canonicalID_strips_lower_case_stop_words_counterexample:
  "canonicalID asciiOnlyUpper ''The United States''
     \<noteq> canonicalID asciiOnlyUpper ''united-states''"
proof -
  have "canonicalID asciiOnlyUpper ''The United States'' = ''THEUNITEDSTATES''" by code_simp
  moreover have "canonicalID asciiOnlyUpper ''united-states'' = ''UNITEDSTATES''" by code_simp
  ultimately show ?thesis by simp
qed

section \<open>Properties of the catalog and of the lookups\<close>

subsection \<open>Auxiliary facts\<close>

lemma MultiPolygonContains_list_ex:
  "MultiPolygonContains rc mp pt = list_ex (\<lambda>p. PolygonContains rc p pt) mp"
  by (induction mp) auto

lemma firstContaining_find:
  "firstContaining rc fs pt = find (\<lambda>f. covers rc f pt) fs"
proof (induction fs)
  case Nil
  then show ?case by simp
next
  case (Cons f fs)
  then show ?case
    by (simp add: covers_def MultiPolygonContains_list_ex split: option.splits geometry.splits)
qed

lemma codeFallback_none:
  "\<forall>f \<in> set fs. \<not> covers rc f pt \<Longrightarrow> codeFallback rc l fs pt = ''??''"
  by (induction fs)
     (auto simp: covers_def MultiPolygonContains_list_ex split: option.splits geometry.splits)

lemma featureForLoc_no_smallest:
  "SmallestFeature rc cc lat lng = None \<Longrightarrow> featureForLoc rc u cc lat lng opts = None"
  by (simp add: featureForLoc_def fastPath_def countryFeature_def generalPath_def Let_def)

lemma storeIDs_features: "features (storeIDs u cc f ids) = features cc"
  by (induction ids arbitrary: cc) (simp_all add: Let_def)

lemma storeIDs_levels: "levels (storeIDs u cc f ids) = levels cc"
  by (induction ids arbitrary: cc) (simp_all add: Let_def)

lemma cacheFeatureByIDs_features: "features (cacheFeatureByIDs u cc f) = features cc"
  by (simp add: cacheFeatureByIDs_def Let_def storeIDs_features)

lemma cacheFeatureByIDs_levels: "levels (cacheFeatureByIDs u cc f) = levels cc"
  by (simp add: cacheFeatureByIDs_def Let_def storeIDs_levels)

lemma loadFeatures_features:
  "features (loadFeatures u cc rfs) = features cc @ map convertFeature rfs"
  by (induction rfs arbitrary: cc) (simp_all add: Let_def cacheFeatureByIDs_features)

lemma loadFeatures_levels: "levels (loadFeatures u cc rfs) = levels cc"
  by (induction rfs arbitrary: cc) (simp_all add: Let_def cacheFeatureByIDs_levels)

lemma NewCountryCoder_features: "features (NewCountryCoder u rfs) = map convertFeature rfs"
  by (simp add: NewCountryCoder_def loadFeatures_features)

lemma NewCountryCoder_levels: "levels (NewCountryCoder u rfs) = defaultLevels"
  by (simp add: NewCountryCoder_def loadFeatures_levels)

lemma rectangle_geometry:
  "parseGeometry (rectangle w e s n) = Some (GPolygon [[(w, s), (e, s), (e, n), (w, n)]])"
  by (simp add: parseGeometry_def rectangle_def)

lemma rectangle_contains:
  "w < e \<Longrightarrow> s < n \<Longrightarrow>
   RingContains [(w, s), (e, s), (e, n), (w, n)] (x, y) = (s \<le> y \<and> y < n \<and> x < e \<and> w \<le> x)" 
  by (simp add: RingContains_def ringEdges_def rayCrosses_def) (auto simp: field_simps)

lemma find_first_index:
  "i < length xs \<Longrightarrow> P (xs ! i) \<Longrightarrow> \<forall>j<i. \<not> P (xs ! j) \<Longrightarrow> find P xs = Some (xs ! i)"
proof (induction xs arbitrary: i)
  case Nil
  then show ?case by simp
next
  case (Cons x xs)
  show ?case
  proof (cases i)
    case 0
    with Cons.prems show ?thesis by simp
  next
    case (Suc k)
    with Cons.prems have "\<not> P x" by auto
    moreover from Suc Cons.prems have "find P xs = Some (xs ! k)"
      by (intro Cons.IH) auto
    ultimately show ?thesis using Suc by simp
  qed
qed

lemma firstContaining_geometry:
  "firstContaining rc fs pt = Some f \<Longrightarrow>
   (\<exists>p. Geometry f = Some (GPolygon p)) \<or> (\<exists>mp. Geometry f = Some (GMultiPolygon mp))"
  by (induction fs) (auto split: option.splits geometry.splits if_splits)

lemma firstContaining_withoutPoint:
  "firstContaining rc (map withoutPoint fs) pt = firstContaining rc fs pt"
  by (induction fs) (auto simp: withoutPoint_def split: option.splits geometry.splits)


lemma covers_regionUS: "covers RingContains (convertFeature regionUS) (x, y) = (20 \<le> y \<and> y < 50 \<and> x < - 60 \<and> - 130 \<le> x)"
  by (simp add: covers_def convertFeature_def regionUS_def rectangle_geometry rectangle_contains)

lemma covers_regionBig: "covers RingContains (convertFeature regionBig) (x, y) = (- 90 \<le> y \<and> y < 90 \<and> x < 180 \<and> - 180 \<le> x)"
  by (simp add: covers_def convertFeature_def regionBig_def rectangle_geometry rectangle_contains)

lemma covers_regionEarth: "\<not> covers rc (convertFeature regionEarth) pt"
  by (simp add: covers_def convertFeature_def regionEarth_def)

lemma covers_regionGuam: "covers RingContains (convertFeature regionGuam) (x, y) = (13 \<le> y \<and> y < 14 \<and> x < 145 \<and> 144 \<le> x)"
  by (simp add: covers_def convertFeature_def regionGuam_def rectangle_geometry rectangle_contains)

lemma covers_regionIsland: "covers RingContains (convertFeature regionIsland) (x, y) = (0 \<le> y \<and> y < 10 \<and> x < 10 \<and> 0 \<le> x)"
  by (simp add: covers_def convertFeature_def regionIsland_def rectangle_geometry rectangle_contains)

lemma canonicalID_US: "canonicalID asciiOnlyUpper ''US'' = ''US''" by code_simp
lemma canonicalID_GU: "canonicalID asciiOnlyUpper ''GU'' = ''GU''" by code_simp
lemma canonicalID_Guam: "canonicalID asciiOnlyUpper ''Guam'' = ''GUAM''" by code_simp

lemma guamOnly_index:
  "featuresByCode guamOnly = [''GU'' \<mapsto> convertFeature regionGuam, ''GUAM'' \<mapsto> convertFeature regionGuam]"
  by (simp add: guamOnly_def NewCountryCoder_def cacheFeatureByIDs_def idProps_def nonEmptyProp_def
      propString_def convertFeature_def regionGuam_def noProperties_def regionProperties_def
      canonicalID_GU canonicalID_Guam Let_def)

subsection \<open>Resolving a point\<close>

text \<open>
  Claim C5. For every point, \<^verbatim>\<open>SmallestFeature\<close> scans the feature list in load order
  and returns the first feature that covers the point: a polygon that contains it, or a
  multipolygon of which some polygon contains it, holes subtracting. Features without
  geometry are skipped, so a returned feature has a geometry. Of two overlapping regions
  the one loaded earlier is returned, whatever its area or level, and the result is
  absent when no feature covers the point.
\<close>

theorem SmallestFeature_first_in_load_order:
  "SmallestFeature rc cc lat lng = find (\<lambda>f. covers rc f (lng, lat)) (features cc)
   \<and> (\<forall>i. i < length (features cc) \<and> covers rc (features cc ! i) (lng, lat) \<and>
          (\<forall>j<i. \<not> covers rc (features cc ! j) (lng, lat))
          \<longrightarrow> SmallestFeature rc cc lat lng = Some (features cc ! i))
   \<and> ((\<forall>f \<in> set (features cc). \<not> covers rc f (lng, lat))
        \<longrightarrow> SmallestFeature rc cc lat lng = None)
   \<and> (\<forall>f. SmallestFeature rc cc lat lng = Some f \<longrightarrow> Geometry f \<noteq> None)"
proof -
  have eq: "SmallestFeature rc cc lat lng = find (\<lambda>f. covers rc f (lng, lat)) (features cc)"
    by (simp add: SmallestFeature_def firstContaining_find)
  have first: "\<forall>i. i < length (features cc) \<and> covers rc (features cc ! i) (lng, lat) \<and>
          (\<forall>j<i. \<not> covers rc (features cc ! j) (lng, lat))
          \<longrightarrow> SmallestFeature rc cc lat lng = Some (features cc ! i)"
    unfolding eq using find_first_index [of _ "features cc" "\<lambda>f. covers rc f (lng, lat)"] by blast
  have none: "(\<forall>f \<in> set (features cc). \<not> covers rc f (lng, lat))
        \<longrightarrow> SmallestFeature rc cc lat lng = None"
    unfolding eq by (simp add: find_None_iff)
  have geom: "\<forall>f. SmallestFeature rc cc lat lng = Some f \<longrightarrow> Geometry f \<noteq> None"
    using firstContaining_geometry [of rc "features cc" "(lng, lat)"]
    by (auto simp: SmallestFeature_def)
  from eq first none geom show ?thesis by blast
qed

theorem SmallestFeature_first_in_load_order_witness:
  "covers RingContains (convertFeature regionUS) (- 100, 40)
   \<and> features overlapping ! 1 = convertFeature regionBig
   \<and> SmallestFeature RingContains overlapping 40 (- 100) = Some (features overlapping ! 1)"
proof -
  have fs: "features overlapping =
      [convertFeature regionEarth, convertFeature regionBig, convertFeature regionUS]"
    by (simp add: overlapping_def NewCountryCoder_features)
  have hyp: "1 < length (features overlapping)
      \<and> covers RingContains (features overlapping ! 1) (- 100, 40)
      \<and> (\<forall>j<1. \<not> covers RingContains (features overlapping ! j) (- 100, 40))"
    by (simp add: fs covers_regionBig covers_regionEarth)
  from SmallestFeature_first_in_load_order [of RingContains overlapping 40 "- 100"]
  have "\<forall>i. i < length (features overlapping)
          \<and> covers RingContains (features overlapping ! i) (- 100, 40)
          \<and> (\<forall>j<i. \<not> covers RingContains (features overlapping ! j) (- 100, 40))
        \<longrightarrow> SmallestFeature RingContains overlapping 40 (- 100) = Some (features overlapping ! i)"
    by blast
  with hyp have "SmallestFeature RingContains overlapping 40 (- 100) = Some (features overlapping ! 1)"
    by blast
  then show ?thesis by (simp add: fs covers_regionUS)
qed

text \<open>
  Claim C1, as amended. For every latitude and longitude such that no region of the
  catalog has a polygon or multipolygon geometry that contains the point,
  \<^verbatim>\<open>CodeByLocation\<close> returns the two-character string \<^verbatim>\<open>??\<close>, not the empty string:
  the fallback loop ends in \<^verbatim>\<open>return "??"\<close>.
\<close>

theorem CodeByLocation_uncovered:
  "(\<forall>f \<in> set (features cc). \<not> covers rc f (lng, lat))
   \<Longrightarrow> CodeByLocation rc u l cc lat lng = ''??''"
proof -
  assume none: "\<forall>f \<in> set (features cc). \<not> covers rc f (lng, lat)"
  then have "SmallestFeature rc cc lat lng = None"
    by (simp add: SmallestFeature_def firstContaining_find find_None_iff)
  then have "ISO1A2Code rc u cc lat lng = []"
    by (simp add: ISO1A2Code_def featureForLoc_no_smallest)
  with codeFallback_none [OF none] show ?thesis
    by (simp add: CodeByLocation_def)
qed

theorem CodeByLocation_uncovered_witness:
  "CodeByLocation RingContains asciiOnlyUpper asciiOnlyLower scenario1 0 0 = ''??''"
proof -
  have "\<forall>f \<in> set (features scenario1). \<not> covers RingContains f (0, 0)"
    by (simp add: scenario1_def NewCountryCoder_features covers_regionUS covers_regionEarth)
  then show ?thesis by (rule CodeByLocation_uncovered)
qed

text \<open>
  The claim as stated fails in scenario 1 of the specification: no region covers the
  point (0, 0), and the code that is returned is not the empty string.
\<close>

theorem CodeByLocation_uncovered_counterexample:
  "\<not> list_ex (\<lambda>f. covers RingContains f (0, 0)) (features scenario1)
   \<and> CodeByLocation RingContains asciiOnlyUpper asciiOnlyLower scenario1 0 0 \<noteq> []"
proof -
  have "\<not> list_ex (\<lambda>f. covers RingContains f (0, 0)) (features scenario1)"
    by (simp add: scenario1_def NewCountryCoder_features covers_regionUS covers_regionEarth)
  moreover have "CodeByLocation RingContains asciiOnlyUpper asciiOnlyLower scenario1 0 0 = ''??''" by code_simp
  ultimately show ?thesis by simp
qed

subsection \<open>The country fast path\<close>

text \<open>
  Claim C10. When the smallest region that contains the point carries a non-empty
  \<^verbatim>\<open>country\<close> property, \<^verbatim>\<open>countryFeature\<close> returns exactly the index entry of the
  canonical form of that property. When the index has no such entry the result is
  absent: neither the resolved region nor the region of its \<^verbatim>\<open>iso1A2\<close> code is
  returned in its place.
\<close>

theorem countryFeature_country_lookup:
  assumes "SmallestFeature rc cc lat lng = Some f"
    and "Properties f ''country'' = Some (PStr country)"
    and "country \<noteq> []"
  shows "countryFeature rc u cc lat lng = featuresByCode cc (canonicalID u country)
         \<and> (featuresByCode cc (canonicalID u country) = None
              \<longrightarrow> countryFeature rc u cc lat lng = None)"
  using assms
  by (simp add: countryFeature_def nonEmptyProp_def propString_def FeatureForID_def)



theorem countryFeature_country_lookup_witness:
  "SmallestFeature RingContains guamOnly (27 / 2) (289 / 2) = Some (convertFeature regionGuam)
   \<and> FeatureForID asciiOnlyUpper guamOnly ''GU'' = Some (convertFeature regionGuam)
   \<and> countryFeature RingContains asciiOnlyUpper guamOnly (27 / 2) (289 / 2) = None"
proof -
  have sm: "SmallestFeature RingContains guamOnly (27 / 2) (289 / 2) = Some (convertFeature regionGuam)"
    by (simp add: SmallestFeature_def firstContaining_find guamOnly_def NewCountryCoder_features
        covers_regionGuam)
  have pr: "Properties (convertFeature regionGuam) ''country'' = Some (PStr ''US'')"
    by (simp add: convertFeature_def regionGuam_def noProperties_def regionProperties_def)
  have ix: "featuresByCode guamOnly (canonicalID asciiOnlyUpper ''US'') = None"
    by (simp add: guamOnly_index canonicalID_US)
  have gu: "FeatureForID asciiOnlyUpper guamOnly ''GU'' = Some (convertFeature regionGuam)"
    by (simp add: FeatureForID_def guamOnly_index canonicalID_GU)
  from countryFeature_country_lookup [OF sm pr] ix sm gu show ?thesis by simp
qed

subsection \<open>Parsing coordinates\<close>

lemma pointOf_spec: "pointOf j = (if numericPair j then Some (pairCoords j) else None)"
  by (induction j rule: pointOf.induct) simp_all

lemma ringPoints_spec:
  "ringPoints points entries = points @ map pairCoords (filter numericPair entries)"
  by (induction entries arbitrary: points) (simp_all add: pointOf_spec)

lemma polygonRings_spec:
  "polygonRings rings rs = rings @ filter (\<lambda>r. r \<noteq> []) (map specRing rs)"
proof (induction rings rs rule: polygonRings.induct)
  case (1 rings)
  then show ?case by simp
next
  case (2 rings ringArray rs)
  then show ?case by (simp add: ringPoints_spec Let_def)
qed simp_all

lemma coordsToPolygon_specPolygon: "coordsToPolygon coords = specPolygon coords"
  by (cases coords) (simp_all add: specPolygon_def polygonRings_spec Let_def)

lemma multiPolygons_spec:
  "multiPolygons polygons blocks =
     polygons @ map the (filter (\<lambda>p. p \<noteq> None) (map specPolygon blocks))"
  by (induction blocks arbitrary: polygons)
     (auto simp: coordsToPolygon_specPolygon split: option.splits)

lemma coordsToMultiPolygon_specMultiPolygon:
  "coordsToMultiPolygon coords = specMultiPolygon coords"
  by (cases coords) (simp_all add: specMultiPolygon_def multiPolygons_spec Let_def)

lemma specPolygon_rings:
  "specPolygon coords = Some rings \<Longrightarrow> rings \<noteq> [] \<and> (\<forall>r \<in> set rings. r \<noteq> [])"
  by (cases coords) (auto simp: specPolygon_def Let_def split: if_splits)

text \<open>
  Claim C8. Within each ring, \<^verbatim>\<open>coordsToPolygon\<close> keeps exactly the coordinate entries
  whose first two components are numeric, in their order; a ring left with no valid
  point is dropped; a polygon left with no valid ring, and a multipolygon left with no
  valid polygon, is no geometry. This holds for every coordinates value, of whatever
  shape: the parser agrees with the specification's description everywhere, what it
  returns has no empty ring and no empty polygon, and it never fails.
\<close>

theorem coordsToPolygon_keeps_numeric_pairs:
  "ringPoints [] entries = map pairCoords (filter numericPair entries)
   \<and> coordsToPolygon coords = specPolygon coords
   \<and> coordsToMultiPolygon coords = specMultiPolygon coords
   \<and> (\<forall>rings. coordsToPolygon coords = Some rings
         \<longrightarrow> rings \<noteq> [] \<and> (\<forall>r \<in> set rings. r \<noteq> []))
   \<and> (\<forall>polygons. coordsToMultiPolygon coords = Some polygons
         \<longrightarrow> polygons \<noteq> [] \<and> (\<forall>p \<in> set polygons. p \<noteq> [] \<and> (\<forall>r \<in> set p. r \<noteq> [])))
   \<and> ((\<forall>r \<in> set rs. specRing r = []) \<longrightarrow> coordsToPolygon (JArr rs) = None)
   \<and> ((\<forall>b \<in> set rs. coordsToPolygon b = None) \<longrightarrow> coordsToMultiPolygon (JArr rs) = None)"
proof -
  have a: "ringPoints [] entries = map pairCoords (filter numericPair entries)"
    by (simp add: ringPoints_spec)
  have b: "\<forall>rings. coordsToPolygon coords = Some rings
         \<longrightarrow> rings \<noteq> [] \<and> (\<forall>r \<in> set rings. r \<noteq> [])"
    using specPolygon_rings by (simp add: coordsToPolygon_specPolygon)
  have c: "\<forall>polygons. coordsToMultiPolygon coords = Some polygons
         \<longrightarrow> polygons \<noteq> [] \<and> (\<forall>p \<in> set polygons. p \<noteq> [] \<and> (\<forall>r \<in> set p. r \<noteq> []))"
  proof (intro allI impI)
    fix polygons assume "coordsToMultiPolygon coords = Some polygons"
    then obtain blocks where ps: "polygons = map the (filter (\<lambda>p. p \<noteq> None) (map specPolygon blocks))"
      and ne: "polygons \<noteq> []"
      by (cases coords)
         (auto simp: coordsToMultiPolygon_specMultiPolygon specMultiPolygon_def Let_def
               split: if_splits)
    have "p \<noteq> [] \<and> (\<forall>r \<in> set p. r \<noteq> [])" if "p \<in> set polygons" for p
    proof -
      from that ps obtain blk where "specPolygon blk = Some p" by auto
      then show ?thesis by (rule specPolygon_rings)
    qed
    with ne show "polygons \<noteq> [] \<and> (\<forall>p \<in> set polygons. p \<noteq> [] \<and> (\<forall>r \<in> set p. r \<noteq> []))"
      by blast
  qed
  have d: "(\<forall>r \<in> set rs. specRing r = []) \<longrightarrow> coordsToPolygon (JArr rs) = None"
    by (auto simp: coordsToPolygon_specPolygon specPolygon_def Let_def filter_empty_conv)
  have e: "(\<forall>b \<in> set rs. coordsToPolygon b = None) \<longrightarrow> coordsToMultiPolygon (JArr rs) = None"
    by (auto simp: coordsToMultiPolygon_specMultiPolygon coordsToPolygon_specPolygon
          specMultiPolygon_def Let_def filter_empty_conv)
  note f = coordsToPolygon_specPolygon [of coords]
  note g = coordsToMultiPolygon_specMultiPolygon [of coords]
  from a f g b c d e show ?thesis by (intro conjI)
qed

theorem coordsToPolygon_keeps_numeric_pairs_witness:
  "coordsToPolygon
     (JArr [JArr [JArr [JNum 1, JNum 2], JArr [JNum 1], JStr ''x'',
                  JArr [JNum 3, JStr ''y''], JArr [JNum 3, JNum 4, JNum 5]],
            JArr [JArr [JStr ''a'', JNum 0]], JNull]) = Some [[(1, 2), (3, 4)]]
   \<and> coordsToPolygon (JArr [JArr [JArr [JNum 7]], JArr [], JBool True]) = None
   \<and> coordsToMultiPolygon (JArr [JArr [JArr [JArr [JNum 7]]], JNum 3]) = None"
proof -
  have r1: "\<forall>r \<in> set [JArr [JArr [JNum 7]], JArr [], JBool True]. specRing r = []"
    by simp
  have p1: "specPolygon (JArr [JArr [JArr [JNum 1, JNum 2], JArr [JNum 1], JStr ''x'',
                  JArr [JNum 3, JStr ''y''], JArr [JNum 3, JNum 4, JNum 5]],
            JArr [JArr [JStr ''a'', JNum 0]], JNull]) = Some [[(1, 2), (3, 4)]]"
    by (simp add: specPolygon_def)
  have b1: "\<forall>b \<in> set [JArr [JArr [JArr [JNum 7]]], JNum 3]. coordsToPolygon b = None"
    by simp
  note t = coordsToPolygon_keeps_numeric_pairs
  from t [of "[]" "JArr [JArr [JArr [JNum 1, JNum 2], JArr [JNum 1], JStr ''x'',
                  JArr [JNum 3, JStr ''y''], JArr [JNum 3, JNum 4, JNum 5]],
            JArr [JArr [JStr ''a'', JNum 0]], JNull]" "[]"] p1
  have x: "coordsToPolygon (JArr [JArr [JArr [JNum 1, JNum 2], JArr [JNum 1], JStr ''x'',
                  JArr [JNum 3, JStr ''y''], JArr [JNum 3, JNum 4, JNum 5]],
            JArr [JArr [JStr ''a'', JNum 0]], JNull]) = Some [[(1, 2), (3, 4)]]"
    by simp
  from t [of "[]" JNull "[JArr [JArr [JNum 7]], JArr [], JBool True]"] r1
  have y: "coordsToPolygon (JArr [JArr [JArr [JNum 7]], JArr [], JBool True]) = None"
    by blast
  from t [of "[]" JNull "[JArr [JArr [JArr [JNum 7]]], JNum 3]"] b1
  have z: "coordsToMultiPolygon (JArr [JArr [JArr [JArr [JNum 7]]], JNum 3]) = None"
    by blast
  from x y z show ?thesis by blast
qed

subsection \<open>Names for codes\<close>

lemma scenario1_US: "FeatureForID asciiOnlyUpper scenario1 ''us'' = Some (convertFeature regionUS)"
proof -
  have "canonicalID asciiOnlyUpper ''us'' = ''US''" "canonicalID asciiOnlyUpper ''US'' = ''US''" "canonicalID asciiOnlyUpper ''EARTH'' = ''EARTH''"
    by code_simp+
  then show ?thesis
  by (simp add: FeatureForID_def scenario1_def NewCountryCoder_def cacheFeatureByIDs_def idProps_def
      nonEmptyProp_def propString_def convertFeature_def regionUS_def regionEarth_def
      noProperties_def regionProperties_def Let_def)
qed

text \<open>
  Claim C7, at the input where the code departs from it. In the catalog of scenario 1
  the code \<^verbatim>\<open>us\<close> resolves to region US, whose English name is the empty string.
  \<^verbatim>\<open>NameEnByCode\<close> then returns that empty string, where the claim has the upper-cased
  code \<^verbatim>\<open>US\<close>: the function falls back only when the \<^verbatim>\<open>nameEn\<close> property is not a
  string, and the catalog stores every missing name as the empty string. An unknown code
  such as \<^verbatim>\<open>zz\<close> does give \<^verbatim>\<open>ZZ\<close>.
\<close>

theorem NameEnByCode_empty_name:
  "FeatureForID asciiOnlyUpper scenario1 ''us'' = Some (convertFeature regionUS)
   \<and> propString (convertFeature regionUS) ''nameEn'' = Some []
   \<and> NameEnByCode asciiOnlyUpper scenario1 ''us'' = []
   \<and> ToUpper asciiOnlyUpper ''us'' = ''US''
   \<and> NameEnByCode asciiOnlyUpper scenario1 ''zz'' = ''ZZ''"
proof -
  have n: "propString (convertFeature regionUS) ''nameEn'' = Some []"
    by (simp add: propString_def convertFeature_def regionUS_def noProperties_def
        regionProperties_def)
  have u: "ToUpper asciiOnlyUpper ''us'' = ''US''" by code_simp
  have z: "NameEnByCode asciiOnlyUpper scenario1 ''zz'' = ''ZZ''" by code_simp
  from scenario1_US n u z show ?thesis by (simp add: NameEnByCode_def)
qed

subsection \<open>Point geometries\<close>

lemma storeIDs_lookup:
  "featuresByCode (storeIDs u cc f ids) k =
     (if k \<noteq> [] \<and> k \<in> canonicalID u ` set ids then Some f else featuresByCode cc k)"
  by (induction ids arbitrary: cc) (auto simp: Let_def)

lemma collectProps_set:
  "set (collectProps f ids props) = set ids \<union> {v. \<exists>p \<in> set props. nonEmptyProp f p = Some v}"
  by (induction props arbitrary: ids) (auto split: option.splits)

lemma collectAliases_subset: "set ids \<subseteq> set (collectAliases ids aliases)"
  by (induction ids aliases rule: collectAliases.induct) auto

lemma cacheFeatureByIDs_lookup:
  assumes "p \<in> set idProps" and "nonEmptyProp f p = Some v" and "canonicalID u v \<noteq> []"
  shows "featuresByCode (cacheFeatureByIDs u cc f) (canonicalID u v) = Some f"
proof -
  from assms have "v \<in> set (collectProps f [] idProps)"
    by (auto simp: collectProps_set)
  then have "v \<in> set (case Properties f ''aliases'' of
                    Some (PList aliases) \<Rightarrow> collectAliases (collectProps f [] idProps) aliases
                  | _ \<Rightarrow> collectProps f [] idProps)"
    using collectAliases_subset by (auto split: option.splits pval.splits)
  with assms(3) show ?thesis
    by (simp add: cacheFeatureByIDs_def Let_def storeIDs_lookup)
qed

lemma loadFeatures_snoc:
  "loadFeatures u cc (rfs @ [rf]) =
     cacheFeatureByIDs u ((loadFeatures u cc rfs)\<lparr>features := features (loadFeatures u cc rfs) @ [convertFeature rf]\<rparr>)
       (convertFeature rf)"
  by (induction rfs arbitrary: cc) (simp_all add: Let_def)

lemma NewCountryCoder_last_id:
  assumes "canonicalID u (prop_id (RProperties rf)) \<noteq> []"
  shows "FeatureForID u (NewCountryCoder u (rfs @ [rf])) (prop_id (RProperties rf)) = Some (convertFeature rf)"
proof -
  from assms have ne: "prop_id (RProperties rf) \<noteq> []" by (auto simp: canonicalID_def)
  then have "nonEmptyProp (convertFeature rf) ''id'' = Some (prop_id (RProperties rf))"
    by (simp add: nonEmptyProp_def propString_def convertFeature_def regionProperties_def)
  moreover have "''id'' \<in> set idProps" by (simp add: idProps_def)
  ultimately have "featuresByCode (cacheFeatureByIDs u c (convertFeature rf))
      (canonicalID u (prop_id (RProperties rf))) = Some (convertFeature rf)" for c
    using assms by (intro cacheFeatureByIDs_lookup)
  then show ?thesis
    by (simp only: FeatureForID_def NewCountryCoder_def loadFeatures_snoc)
qed

lemma canonicalID_PT: "canonicalID asciiOnlyUpper ''PT'' = ''PT''" by code_simp

text \<open>
  Claim C9. A feature whose geometry is a point is never the result of coordinate
  resolution: whatever \<^verbatim>\<open>SmallestFeature\<close> returns has a polygon or a multipolygon
  geometry, and taking the point geometries away from the catalog changes no result, so
  such a feature behaves like one without geometry. It is all the same stored in the
  catalog and found by its ID: a region loaded last with a point geometry and an ID of
  non-empty canonical form is in the feature list and is what \<^verbatim>\<open>FeatureForID\<close> returns
  for that ID.
\<close>

theorem point_features_never_resolved:
  "(\<forall>f. SmallestFeature rc cc lat lng = Some f
       \<longrightarrow> (\<exists>p. Geometry f = Some (GPolygon p)) \<or> (\<exists>mp. Geometry f = Some (GMultiPolygon mp)))
   \<and> SmallestFeature rc (cc\<lparr>features := map withoutPoint (features cc)\<rparr>) lat lng
       = SmallestFeature rc cc lat lng
   \<and> (RGeometry rf = Some g \<and> parseGeometry g = Some (GPoint pt)
        \<and> canonicalID u (prop_id (RProperties rf)) \<noteq> []
       \<longrightarrow> Geometry (convertFeature rf) = Some (GPoint pt)
         \<and> convertFeature rf \<in> set (features (NewCountryCoder u (rfs @ [rf])))
         \<and> FeatureForID u (NewCountryCoder u (rfs @ [rf])) (prop_id (RProperties rf))
             = Some (convertFeature rf)
         \<and> SmallestFeature rc (NewCountryCoder u (rfs @ [rf])) lat lng \<noteq> Some (convertFeature rf))"
proof -
  have a: "\<forall>f. SmallestFeature rc c lat lng = Some f
       \<longrightarrow> (\<exists>p. Geometry f = Some (GPolygon p)) \<or> (\<exists>mp. Geometry f = Some (GMultiPolygon mp))" for c
    using firstContaining_geometry by (auto simp: SmallestFeature_def)
  have b: "SmallestFeature rc (cc\<lparr>features := map withoutPoint (features cc)\<rparr>) lat lng
       = SmallestFeature rc cc lat lng"
    by (simp add: SmallestFeature_def firstContaining_withoutPoint)
  have c: "Geometry (convertFeature rf) = Some (GPoint pt)
         \<and> convertFeature rf \<in> set (features (NewCountryCoder u (rfs @ [rf])))
         \<and> FeatureForID u (NewCountryCoder u (rfs @ [rf])) (prop_id (RProperties rf))
             = Some (convertFeature rf)
         \<and> SmallestFeature rc (NewCountryCoder u (rfs @ [rf])) lat lng \<noteq> Some (convertFeature rf)"
    if h: "RGeometry rf = Some g" "parseGeometry g = Some (GPoint pt)"
      "canonicalID u (prop_id (RProperties rf)) \<noteq> []"
  proof -
    from h have geo: "Geometry (convertFeature rf) = Some (GPoint pt)"
      by (simp add: convertFeature_def)
    have mem: "convertFeature rf \<in> set (features (NewCountryCoder u (rfs @ [rf])))"
      by (simp add: NewCountryCoder_features)
    from geo a [of "NewCountryCoder u (rfs @ [rf])"]
    have "SmallestFeature rc (NewCountryCoder u (rfs @ [rf])) lat lng \<noteq> Some (convertFeature rf)"
      by auto
    with geo mem NewCountryCoder_last_id [OF h(3)] show ?thesis by blast
  qed
  from a [of cc] b c show ?thesis by blast
qed

theorem point_features_never_resolved_witness:
  "Geometry (convertFeature regionPoint) = Some (GPoint (- 100, 40))
   \<and> FeatureForID asciiOnlyUpper (NewCountryCoder asciiOnlyUpper [regionUS, regionPoint]) ''PT'' = Some (convertFeature regionPoint)
   \<and> SmallestFeature RingContains (NewCountryCoder asciiOnlyUpper [regionUS, regionPoint]) 40 (- 100)
       \<noteq> Some (convertFeature regionPoint)
   \<and> SmallestFeature RingContains (NewCountryCoder asciiOnlyUpper [regionPoint]) 40 (- 100) = None"
proof -
  have g: "RGeometry regionPoint = Some (JObj [(''type'', JStr ''Point''),
                              (''coordinates'', JArr [JNum (- 100), JNum 40])])"
    by (simp add: regionPoint_def)
  have p: "parseGeometry (JObj [(''type'', JStr ''Point''),
                              (''coordinates'', JArr [JNum (- 100), JNum 40])]) = Some (GPoint (- 100, 40))"
    by (simp add: parseGeometry_def)
  have i: "prop_id (RProperties regionPoint) = ''PT''"
    by (simp add: regionPoint_def noProperties_def)
  have c: "canonicalID asciiOnlyUpper (prop_id (RProperties regionPoint)) \<noteq> []"
    by (simp add: i canonicalID_PT)
  from point_features_never_resolved
    [of RingContains "NewCountryCoder asciiOnlyUpper [regionUS, regionPoint]" 40 "- 100"
       regionPoint _ "(- 100, 40)" asciiOnlyUpper "[regionUS]"]
    g p c
  have x: "Geometry (convertFeature regionPoint) = Some (GPoint (- 100, 40))
   \<and> FeatureForID asciiOnlyUpper (NewCountryCoder asciiOnlyUpper [regionUS, regionPoint]) ''PT'' = Some (convertFeature regionPoint)
   \<and> SmallestFeature RingContains (NewCountryCoder asciiOnlyUpper [regionUS, regionPoint]) 40 (- 100)
       \<noteq> Some (convertFeature regionPoint)"
    by (simp add: i)
  have y: "SmallestFeature RingContains (NewCountryCoder asciiOnlyUpper [regionPoint]) 40 (- 100) = None"
    using g p
    by (simp add: SmallestFeature_def NewCountryCoder_features convertFeature_def)
  from x y show ?thesis by blast
qed


subsection \<open>The leveled lookup\<close>

lemma indexFrom_range: "indexFrom i ls level = - 1 \<or> i \<le> indexFrom i ls level"
proof (induction ls arbitrary: i)
  case Nil
  then show ?case by simp
next
  case (Cons l ls)
  from Cons.IH [of "i + 1"] show ?case by auto
qed

lemma levelIndex_range: "levelIndex cc level = - 1 \<or> 0 \<le> levelIndex cc level"
  using indexFrom_range [of 0 "levels cc" level] by (simp add: levelIndex_def)

lemma matchesLevel_within:
  assumes "\<not> invalidLevels cc targetLevel maxLevel"
    and "matchesLevel cc f targetLevel maxLevel"
  shows "levelWithin cc targetLevel maxLevel f"
proof -
  from assms(2) obtain level where l: "propString f ''level'' = Some level"
    by (auto simp: matchesLevel_def split: option.splits)
  from assms(1) levelIndex_range [of cc targetLevel]
  have t: "0 \<le> levelIndex cc targetLevel" "levelIndex cc targetLevel \<le> levelIndex cc maxLevel"
    by (auto simp: invalidLevels_def)
  show ?thesis
  proof (cases "level = targetLevel")
    case True
    with l t show ?thesis by (simp add: levelWithin_def)
  next
    case False
    with assms(2) l have "levelIndex cc targetLevel < levelIndex cc level"
      "levelIndex cc level \<le> levelIndex cc maxLevel"
      by (simp_all add: matchesLevel_def Let_def)
    with l t show ?thesis by (simp add: levelWithin_def)
  qed
qed

lemma walkGroups_matches:
  "walkGroups u cc targetLevel maxLevel withProp groups = Some f
   \<Longrightarrow> matchesLevel cc f targetLevel maxLevel"
  by (induction u cc targetLevel maxLevel withProp groups rule: walkGroups.induct)
     (auto split: option.splits if_splits)

lemma generalPath_within:
  assumes "generalPath rc u cc lat lng targetLevel maxLevel withProp = Some f"
  shows "levelWithin cc targetLevel maxLevel f"
proof -
  from assms obtain smallest where sm: "SmallestFeature rc cc lat lng = Some smallest"
    by (auto simp: generalPath_def split: option.splits)
  from assms sm have valid: "\<not> invalidLevels cc targetLevel maxLevel"
    by (auto simp: generalPath_def invalidLevels_def Let_def split: if_splits)
  from assms sm have "matchesLevel cc f targetLevel maxLevel"
    by (auto simp: generalPath_def Let_def dest: walkGroups_matches
        split: if_splits option.splits pval.splits)
  with valid show ?thesis by (rule matchesLevel_within)
qed

lemma generalPath_invalid:
  "invalidLevels cc targetLevel maxLevel
   \<Longrightarrow> generalPath rc u cc lat lng targetLevel maxLevel withProp = None"
  by (auto simp: generalPath_def invalidLevels_def Let_def split: option.splits)

lemma level_indexes:
  "indexFrom 0 defaultLevels ''territory'' = 1"
  "indexFrom 0 defaultLevels ''country'' = 3"
  "indexFrom 0 defaultLevels ''subregion'' = 6"
  "indexFrom 0 defaultLevels ''region'' = 7"
  "indexFrom 0 defaultLevels ''world'' = 11"
  "indexFrom 0 defaultLevels ''bogus'' = - 1"
  by (simp_all add: defaultLevels_def)

lemma smallest_overlapping:
  "SmallestFeature RingContains overlapping 40 (- 100) = Some (convertFeature regionBig)"
  by (simp add: SmallestFeature_def firstContaining_find overlapping_def NewCountryCoder_features
      covers_regionBig covers_regionEarth)

lemma smallest_scenario1:
  "SmallestFeature RingContains scenario1 40 (- 100) = Some (convertFeature regionUS)"
  by (simp add: SmallestFeature_def firstContaining_find scenario1_def NewCountryCoder_features
      covers_regionUS)

lemma smallest_islandOnly:
  "SmallestFeature RingContains islandOnly 5 5 = Some (convertFeature regionIsland)"
  by (simp add: SmallestFeature_def firstContaining_find islandOnly_def NewCountryCoder_features
      covers_regionIsland)

lemma props_regionBig:
  "propString (convertFeature regionBig) ''level'' = Some ''region''"
  by (simp add: propString_def convertFeature_def regionBig_def noProperties_def
      regionProperties_def)

lemma props_regionUS:
  "propString (convertFeature regionUS) ''level'' = Some ''country''"
  "nonEmptyProp (convertFeature regionUS) ''country'' = None"
  "nonEmptyProp (convertFeature regionUS) ''iso1A2'' = None"
  by (simp_all add: nonEmptyProp_def propString_def convertFeature_def regionUS_def
      noProperties_def regionProperties_def)

lemma props_regionIsland:
  "propString (convertFeature regionIsland) ''level'' = Some ''territory''"
  "nonEmptyProp (convertFeature regionIsland) ''country'' = None"
  "nonEmptyProp (convertFeature regionIsland) ''iso1A2'' = None"
  by (simp_all add: nonEmptyProp_def propString_def convertFeature_def regionIsland_def
      noProperties_def regionProperties_def)

lemma levels_examples:
  "levels overlapping = defaultLevels" "levels scenario1 = defaultLevels"
  "levels islandOnly = defaultLevels"
  by (simp_all add: overlapping_def scenario1_def islandOnly_def NewCountryCoder_levels)

text \<open>
  Claim C3, as amended. For every target level, max level, required-property filter and
  point, a region that \<^verbatim>\<open>featureForLoc\<close> returns from its general path has a level of
  the rank list that is neither more granular than the target level nor coarser than
  the max level (an absent target level being country and an absent max level world).
  The general path is the only one when the target level is not country, and the one
  taken when the country fast path yields no acceptable region. The fast path itself
  returns what \<^verbatim>\<open>countryFeature\<close> finds, with no test of its level.
\<close>

theorem featureForLoc_general_path_level:
  assumes "featureForLoc rc u cc lat lng opts = Some f"
    and "targetLevelOf opts \<noteq> ''country''
         \<or> fastPath rc u cc lat lng ''country'' (WithProp opts) = None"
  shows "levelWithin cc (targetLevelOf opts) (maxLevelOf opts) f"
proof -
  from assms(2) have "fastPath rc u cc lat lng (targetLevelOf opts) (WithProp opts) = None"
    by (cases "targetLevelOf opts = ''country''") (auto simp: fastPath_def)
  with assms(1)
  have "generalPath rc u cc lat lng (targetLevelOf opts) (maxLevelOf opts) (WithProp opts) = Some f"
    by (simp add: featureForLoc_def Let_def)
  then show ?thesis by (rule generalPath_within)
qed

theorem featureForLoc_general_path_level_witness:
  "featureForLoc RingContains asciiOnlyUpper overlapping 40 (- 100)
     \<lparr>Level = ''subregion'', MaxLevel = [], WithProp = []\<rparr> = Some (convertFeature regionBig)
   \<and> levelWithin overlapping ''subregion'' ''world'' (convertFeature regionBig)"
proof -
  let ?opts = "\<lparr>Level = ''subregion'', MaxLevel = [], WithProp = []\<rparr>"
  have t: "targetLevelOf ?opts = ''subregion''" "maxLevelOf ?opts = ''world''"
    by (simp_all add: targetLevelOf_def maxLevelOf_def)
  have r: "featureForLoc RingContains asciiOnlyUpper overlapping 40 (- 100) ?opts = Some (convertFeature regionBig)"
    by (simp add: featureForLoc_def t fastPath_def generalPath_def smallest_overlapping
        levelIndex_def levels_examples level_indexes matchesLevel_def props_regionBig)
  have h: "targetLevelOf ?opts \<noteq> ''country''
         \<or> fastPath RingContains asciiOnlyUpper overlapping 40 (- 100) ''country'' (WithProp ?opts) = None"
    by (simp add: t)
  from featureForLoc_general_path_level [OF r h] r show ?thesis by (simp add: t)
qed

text \<open>
  The claim as stated fails on the fast path: in a catalog that holds a single territory
  with neither a country nor an ISO code, a lookup at level country returns that
  territory, whose level is more granular than the target.
\<close>

theorem featureForLoc_general_path_level_counterexample:
  "featureForLoc RingContains asciiOnlyUpper islandOnly 5 5
     \<lparr>Level = ''country'', MaxLevel = ''world'', WithProp = []\<rparr>
     = Some (convertFeature regionIsland)
   \<and> propString (convertFeature regionIsland) ''level'' = Some ''territory''
   \<and> levelIndex islandOnly ''territory'' < levelIndex islandOnly ''country''
   \<and> \<not> levelWithin islandOnly ''country'' ''world'' (convertFeature regionIsland)"
  by (simp add: featureForLoc_def targetLevelOf_def maxLevelOf_def fastPath_def countryFeature_def
      smallest_islandOnly props_regionIsland levelIndex_def levels_examples level_indexes
      levelWithin_def)



text \<open>
  Claim C4, as amended. For every request whose target level is not in the rank list, or
  whose max level is not in the list, or whose max level is more granular than the
  target level, and for every point, \<^verbatim>\<open>featureForLoc\<close> returns what its country fast
  path returns: absence whenever the target level is not country, and, when the target
  level is country, the region found by \<^verbatim>\<open>countryFeature\<close> if it passes the
  required-property filter. The level check comes after the fast path.
\<close>

theorem featureForLoc_invalid_levels:
  assumes "invalidLevels cc (targetLevelOf opts) (maxLevelOf opts)"
  shows "featureForLoc rc u cc lat lng opts
           = fastPath rc u cc lat lng (targetLevelOf opts) (WithProp opts)
         \<and> (targetLevelOf opts \<noteq> ''country'' \<longrightarrow> featureForLoc rc u cc lat lng opts = None)"
  using generalPath_invalid [OF assms]
  by (auto simp: featureForLoc_def Let_def fastPath_def split: option.splits)

theorem featureForLoc_invalid_levels_witness:
  "invalidLevels overlapping ''region'' ''country''
   \<and> featureForLoc RingContains asciiOnlyUpper overlapping 40 (- 100)
       \<lparr>Level = ''region'', MaxLevel = ''country'', WithProp = []\<rparr> = None"
proof -
  let ?opts = "\<lparr>Level = ''region'', MaxLevel = ''country'', WithProp = []\<rparr>"
  have t: "targetLevelOf ?opts = ''region''" "maxLevelOf ?opts = ''country''"
    by (simp_all add: targetLevelOf_def maxLevelOf_def)
  have i: "invalidLevels overlapping (targetLevelOf ?opts) (maxLevelOf ?opts)"
    by (simp add: t invalidLevels_def levelIndex_def levels_examples level_indexes)
  from featureForLoc_invalid_levels [OF i, of RingContains asciiOnlyUpper 40 "- 100"] i
  show ?thesis by (simp add: t fastPath_def)
qed

text \<open>
  The claim as stated fails when the target level is country: in scenario 1, with a max
  level more granular than country, or unknown, the point inside region US still
  resolves to it.
\<close>

theorem featureForLoc_invalid_levels_counterexample:
  "invalidLevels scenario1 ''country'' ''territory''
   \<and> featureForLoc RingContains asciiOnlyUpper scenario1 40 (- 100)
       \<lparr>Level = ''country'', MaxLevel = ''territory'', WithProp = []\<rparr>
       = Some (convertFeature regionUS)
   \<and> invalidLevels scenario1 ''country'' ''bogus''
   \<and> featureForLoc RingContains asciiOnlyUpper scenario1 40 (- 100)
       \<lparr>Level = ''country'', MaxLevel = ''bogus'', WithProp = []\<rparr>
       = Some (convertFeature regionUS)"
  by (simp add: featureForLoc_def targetLevelOf_def maxLevelOf_def fastPath_def countryFeature_def
      smallest_scenario1 props_regionUS invalidLevels_def levelIndex_def levels_examples
      level_indexes)

end
